theory Spec2Isabelle
  imports Complex_Main "HOL-Library.Word" "HOL-Library.Sublist"
begin

section \<open>JavaScript values\<close>

text \<open>
  A JavaScript string is a sequence of UTF-16 code units. String literals of the source
  are written \<open>js ''...''\<close>.
\<close>

type_synonym jsstring = "16 word list"

definition js :: "string \<Rightarrow> jsstring" where
  "js s = map (\<lambda>c. of_nat (of_char c)) s"

text \<open>
  The values that travel through the node: parsed JSON, parameter values and request
  options (\<open>IDataObject\<close>). An object keeps its keys in insertion order. Numbers are
  only ever copied by the node, never computed with.
\<close>

datatype jsval =
    JUndefined
  | JNull
  | JBool bool
  | JNum real
  | JStr jsstring
  | JArr "jsval list"
  | JObj "(jsstring \<times> jsval) list"

text \<open>Reading \<open>o.k\<close> on a plain object: a missing key reads as \<open>undefined\<close>.\<close>

definition obj_get :: "(jsstring \<times> jsval) list \<Rightarrow> jsstring \<Rightarrow> jsval" where
  "obj_get kvs k = (case map_of kvs k of None \<Rightarrow> JUndefined | Some v \<Rightarrow> v)"

text \<open>
  The assignment \<open>o.k = v\<close>: an existing key keeps its place, a new key goes last.
\<close>

fun obj_set :: "(jsstring \<times> jsval) list \<Rightarrow> jsstring \<Rightarrow> jsval \<Rightarrow> (jsstring \<times> jsval) list" where
  "obj_set [] k v = [(k, v)]"
| "obj_set ((k', v') # kvs) k v = (if k' = k then (k, v) # kvs else (k', v') # obj_set kvs k v)"

text \<open>
  What a \<open>throw\<close> carries: the host's \<open>NodeOperationError\<close> (built from the node and a
  message), any other instance of \<open>Error\<close> (its name and message), or a value that is not
  an \<open>Error\<close> at all.
\<close>

datatype thrown =
    NodeOperationError jsval jsstring
  | JsError jsstring jsstring
  | NonError jsval

text \<open>
  \<open>error instanceof Error\<close> and \<open>error.message\<close> in one: the message of a thrown
  instance of \<open>Error\<close>, and \<open>None\<close> for a thrown value that is no such instance.
\<close>

fun Error_message :: "thrown \<Rightarrow> jsstring option" where
  "Error_message (NodeOperationError node m) = Some m"
| "Error_message (JsError nm m) = Some m"
| "Error_message (NonError v) = None"

text \<open>
  Truthiness, as tested by \<open>!models\<close>, and \<open>Array.isArray\<close>.
\<close>

fun truthy :: "jsval \<Rightarrow> bool" where
  "truthy JUndefined = False"
| "truthy JNull = False"
| "truthy (JBool b) = b"
| "truthy (JNum x) = (x \<noteq> 0)"
| "truthy (JStr s) = (s \<noteq> [])"
| "truthy (JArr vs) = True"
| "truthy (JObj kvs) = True"

fun isArray :: "jsval \<Rightarrow> bool" where
  "isArray (JArr vs) = True"
| "isArray v = False"

section \<open>The string built-ins used by the node\<close>

text \<open>
  \<open>String.prototype.trim\<close> removes white space and line terminators from both ends:
  the code units of ECMAScript's WhiteSpace and LineTerminator productions.
\<close>

definition is_whitespace :: "16 word \<Rightarrow> bool" where
  "is_whitespace u = (u \<in> set [0x09, 0x0A, 0x0B, 0x0C, 0x0D, 0x20, 0xA0, 0x1680,
     0x2000, 0x2001, 0x2002, 0x2003, 0x2004, 0x2005, 0x2006, 0x2007, 0x2008, 0x2009, 0x200A,
     0x2028, 0x2029, 0x202F, 0x205F, 0x3000, 0xFEFF])"

definition trim :: "jsstring \<Rightarrow> jsstring" where
  "trim s = rev (dropWhile is_whitespace (rev (dropWhile is_whitespace s)))"

text \<open>
  \<open>S.split(sep)\<close> with a string separator and no limit. \<open>split_scan sep cur rest\<close> walks
  \<open>rest\<close> from the left; \<open>cur\<close> holds the code units of the piece being collected. At
  each position where \<open>sep\<close> matches, the piece is closed and the scan resumes after the
  separator. An empty separator splits into single code units.
\<close>

function split_scan :: "jsstring \<Rightarrow> jsstring \<Rightarrow> jsstring \<Rightarrow> jsstring list" where
  "split_scan sep cur [] = [cur]"
| "split_scan sep cur (u # us) =
     (if sep \<noteq> [] \<and> prefix sep (u # us)
      then cur # split_scan sep [] (drop (length sep) (u # us))
      else split_scan sep (cur @ [u]) us)"
  by pat_completeness auto
termination
  by (relation "measure (\<lambda>(sep, cur, rest). length rest)") auto

definition split :: "jsstring \<Rightarrow> jsstring \<Rightarrow> jsstring list" where
  "split s sep = (if sep = [] then map (\<lambda>u. [u]) s else split_scan sep [] s)"

text \<open>
  \<open>S.replace(pat, rep)\<close> with a string pattern: only the leftmost occurrence of \<open>pat\<close>
  is replaced, and a string without any occurrence is returned as it is. The replacement
  is taken literally, which is what JavaScript does for a replacement without \<open>$\<close>.
\<close>

fun replace :: "jsstring \<Rightarrow> jsstring \<Rightarrow> jsstring \<Rightarrow> jsstring" where
  "replace [] pat rep = (if pat = [] then rep else [])"
| "replace (u # us) pat rep =
     (if prefix pat (u # us) then rep @ drop (length pat) (u # us)
      else u # replace us pat rep)"

text \<open>
  \<open>Array.prototype.map\<close> with a callback that may throw: the elements are visited from
  the left and the first throw ends the whole call.
\<close>

fun map_throw :: "('a \<Rightarrow> thrown + 'b) \<Rightarrow> 'a list \<Rightarrow> thrown + 'b list" where
  "map_throw f [] = Inr []"
| "map_throw f (x # xs) =
     (case f x of
        Inl e \<Rightarrow> Inl e
      | Inr y \<Rightarrow> (case map_throw f xs of Inl e \<Rightarrow> Inl e | Inr ys \<Rightarrow> Inr (y # ys)))"

section \<open>The host's execution context\<close>

record paired_item_data =
  item :: nat

record node_execution_data =
  json :: jsval
  pairedItem :: "paired_item_data option"

record credentials =
  apiKey :: jsstring

record node_property_options =
  opt_name :: jsval
  opt_value :: jsval
  opt_description :: jsval

text \<open>
  Every call of a method of the host is logged, in the order of the calls. The log is the
  history the host has seen so far, and the host's answers may depend on it: two equal
  requests need not get equal responses.
\<close>

datatype event =
    CallGetInputData
  | CallGetCredentials jsstring
  | CallGetNodeParameter jsstring nat
  | CallRequest jsval
  | CallGetNode
  | CallContinueOnFail

text \<open>
  The methods of \<open>this\<close> that the node calls. \<open>getNodeParameter\<close> appears once for each
  type the source casts its result to; the cast itself checks nothing. A result \<open>Inl e\<close>
  is the call throwing \<open>e\<close>. \<open>JSON_parse\<close> is the runtime's \<open>JSON.parse\<close>, whose
  \<open>Inl m\<close> is a \<open>SyntaxError\<close> with message \<open>m\<close>; \<open>typeErrorMessage v k\<close> is the message
  the engine gives the \<open>TypeError\<close> raised when member \<open>k\<close> of the value \<open>v\<close> cannot be
  read or called.
\<close>

record "context" =
  getInputData :: "node_execution_data list"
  getCredentials :: "event list \<Rightarrow> jsstring \<Rightarrow> thrown + credentials"
  getNodeParameter_string :: "event list \<Rightarrow> jsstring \<Rightarrow> nat \<Rightarrow> thrown + jsstring"
  getNodeParameter_number :: "event list \<Rightarrow> jsstring \<Rightarrow> nat \<Rightarrow> thrown + real"
  getNodeParameter_boolean :: "event list \<Rightarrow> jsstring \<Rightarrow> nat \<Rightarrow> thrown + bool"
  getNodeParameter_collection ::
    "event list \<Rightarrow> jsstring \<Rightarrow> nat \<Rightarrow> thrown + (jsstring \<times> jsval) list list"
  request :: "event list \<Rightarrow> jsval \<Rightarrow> thrown + jsval"
  getNode :: jsval
  continueOnFail :: bool
  JSON_parse :: "jsstring \<Rightarrow> jsstring + jsval"
  typeErrorMessage :: "jsval \<Rightarrow> jsstring \<Rightarrow> jsstring"

text \<open>
  A computation takes the log so far and returns a value or a thrown error, with the
  extended log.
\<close>

type_synonym 'a io = "event list \<Rightarrow> (thrown + 'a) \<times> event list"

definition returnIO :: "'a \<Rightarrow> 'a io" where
  "returnIO x tr = (Inr x, tr)"

definition throwIO :: "thrown \<Rightarrow> 'a io" where
  "throwIO e tr = (Inl e, tr)"

definition bindIO :: "'a io \<Rightarrow> ('a \<Rightarrow> 'b io) \<Rightarrow> 'b io" where
  "bindIO m f tr = (case m tr of (Inl e, tr') \<Rightarrow> (Inl e, tr') | (Inr x, tr') \<Rightarrow> f x tr')"

definition catchIO :: "'a io \<Rightarrow> (thrown \<Rightarrow> 'a io) \<Rightarrow> 'a io" where
  "catchIO m h tr = (case m tr of (Inl e, tr') \<Rightarrow> h e tr' | (Inr x, tr') \<Rightarrow> (Inr x, tr'))"

definition liftIO :: "thrown + 'a \<Rightarrow> 'a io" where
  "liftIO r tr = (r, tr)"

definition call :: "event \<Rightarrow> (event list \<Rightarrow> thrown + 'a) \<Rightarrow> 'a io" where
  "call ev f tr = (f tr, tr @ [ev])"

text \<open>
  Reading member \<open>k\<close> of a value that came over the network. \<open>null\<close> and \<open>undefined\<close>
  have no members: the read throws a \<open>TypeError\<close>. The node reads \<open>data\<close>, \<open>id\<close> and
  \<open>description\<close> only, which no string, number, boolean or array has.
\<close>

fun get_prop :: "context \<Rightarrow> jsval \<Rightarrow> jsstring \<Rightarrow> thrown + jsval" where
  "get_prop c JUndefined k = Inl (JsError (js ''TypeError'') (typeErrorMessage c JUndefined k))"
| "get_prop c JNull k = Inl (JsError (js ''TypeError'') (typeErrorMessage c JNull k))"
| "get_prop c (JObj kvs) k = Inr (obj_get kvs k)"
| "get_prop c v k = Inr JUndefined"

section \<open>The chat-completion invoker: \<open>execute\<close>\<close>

text \<open>The nine parameters an iteration reads, under the names of the source's constants.\<close>

record params =
  operation :: jsstring
  model :: jsstring
  messagesInput :: "(jsstring \<times> jsval) list list"
  max_tokens :: real
  temperature :: real
  top_p :: real
  frequency_penalty :: real
  presence_penalty :: real
  stream :: bool

text \<open>
  The callback of the \<open>map\<close> over the configured messages: a fresh object with the two
  keys \<open>role\<close> and \<open>content\<close>.
\<close>

definition project_message :: "(jsstring \<times> jsval) list \<Rightarrow> (jsstring \<times> jsval) list" where
  "project_message message =
     [(js ''role'', obj_get message (js ''role'')),
      (js ''content'', obj_get message (js ''content''))]"

text \<open>
  The reads at the head of the \<open>try\<close> block, in the order of the source. A read that
  throws ends the block; the reads after it do not happen. The default \<open>[]\<close> that the
  source passes for the messages is applied by the host: the read returns a list.
\<close>

definition read_params :: "context \<Rightarrow> nat \<Rightarrow> params io" where
  "read_params c i =
     bindIO (call (CallGetNodeParameter (js ''operation'') i)
               (\<lambda>tr. getNodeParameter_string c tr (js ''operation'') i)) (\<lambda>operation'.
     bindIO (call (CallGetNodeParameter (js ''model'') i)
               (\<lambda>tr. getNodeParameter_string c tr (js ''model'') i)) (\<lambda>model'.
     bindIO (call (CallGetNodeParameter (js ''messages.messagesValues'') i)
               (\<lambda>tr. getNodeParameter_collection c tr (js ''messages.messagesValues'') i))
       (\<lambda>messagesValues.
     bindIO (call (CallGetNodeParameter (js ''max_tokens'') i)
               (\<lambda>tr. getNodeParameter_number c tr (js ''max_tokens'') i)) (\<lambda>max_tokens'.
     bindIO (call (CallGetNodeParameter (js ''temperature'') i)
               (\<lambda>tr. getNodeParameter_number c tr (js ''temperature'') i)) (\<lambda>temperature'.
     bindIO (call (CallGetNodeParameter (js ''top_p'') i)
               (\<lambda>tr. getNodeParameter_number c tr (js ''top_p'') i)) (\<lambda>top_p'.
     bindIO (call (CallGetNodeParameter (js ''frequency_penalty'') i)
               (\<lambda>tr. getNodeParameter_number c tr (js ''frequency_penalty'') i))
       (\<lambda>frequency_penalty'.
     bindIO (call (CallGetNodeParameter (js ''presence_penalty'') i)
               (\<lambda>tr. getNodeParameter_number c tr (js ''presence_penalty'') i))
       (\<lambda>presence_penalty'.
     bindIO (call (CallGetNodeParameter (js ''stream'') i)
               (\<lambda>tr. getNodeParameter_boolean c tr (js ''stream'') i)) (\<lambda>stream'.
     returnIO \<lparr>operation = operation', model = model',
                messagesInput = map project_message messagesValues,
                max_tokens = max_tokens', temperature = temperature', top_p = top_p',
                frequency_penalty = frequency_penalty',
                presence_penalty = presence_penalty', stream = stream'\<rparr>)))))))))"

text \<open>The request payload \<open>body\<close> and the \<open>requestOptions\<close> around it.\<close>

definition body :: "params \<Rightarrow> (jsstring \<times> jsval) list" where
  "body p =
     [(js ''model'', JStr (model p)),
      (js ''messages'', JArr (map JObj (messagesInput p))),
      (js ''max_tokens'', JNum (max_tokens p)),
      (js ''temperature'', JNum (temperature p)),
      (js ''top_p'', JNum (top_p p)),
      (js ''frequency_penalty'', JNum (frequency_penalty p)),
      (js ''presence_penalty'', JNum (presence_penalty p)),
      (js ''stream'', JBool (stream p))]"

definition requestOptions :: "jsstring \<Rightarrow> params \<Rightarrow> (jsstring \<times> jsval) list" where
  "requestOptions key p =
     [(js ''method'', JStr (js ''POST'')),
      (js ''url'', JStr (js ''https://openrouter.ai/api/v1/chat/completions'')),
      (js ''headers'', JObj
         [(js ''Authorization'', JStr (js ''Bearer '' @ key)),
          (js ''Content-Type'', JStr (js ''application/json'')),
          (js ''HTTP-Referer'', JStr (js ''https://n8n.io'')),
          (js ''X-Title'', JStr (js ''n8n OpenRouter Node''))]),
      (js ''body'', JObj (body p)),
      (js ''json'', JBool True)]"

text \<open>
  The options of a streaming request, after the two assignments
  \<open>requestOptions.encoding = 'utf8'\<close> and \<open>requestOptions.json = false\<close>.
\<close>

definition streamOptions :: "jsstring \<Rightarrow> params \<Rightarrow> (jsstring \<times> jsval) list" where
  "streamOptions key p =
     obj_set (obj_set (requestOptions key p) (js ''encoding'') (JStr (js ''utf8'')))
       (js ''json'') (JBool False)"

text \<open>
  The streamed body: \<open>chunks\<close> are the pieces between double newlines that are not blank,
  \<open>parsedChunks\<close> the JSON values of the chunks without their first \<open>data: \<close>.
\<close>

definition chunks :: "jsstring \<Rightarrow> jsstring list" where
  "chunks response =
     filter (\<lambda>chunk. trim chunk \<noteq> []) (split response (js ''\<newline>\<newline>''))"

definition parse_chunk :: "context \<Rightarrow> jsstring \<Rightarrow> thrown + jsval" where
  "parse_chunk c chunk =
     (let jsonStr = replace chunk (js ''data: '') []
      in case JSON_parse c jsonStr of
           Inl m \<Rightarrow> Inl (JsError (js ''SyntaxError'') m)
         | Inr v \<Rightarrow> Inr v)"

definition parsedChunks :: "context \<Rightarrow> jsstring \<Rightarrow> thrown + jsval list" where
  "parsedChunks c response = map_throw (parse_chunk c) (chunks response)"

text \<open>
  The response of a streaming request is used as a string. A response that is no string
  has no \<open>split\<close> method, and calling it throws a \<open>TypeError\<close>.
\<close>

fun streamed :: "context \<Rightarrow> jsval \<Rightarrow> thrown + node_execution_data" where
  "streamed c (JStr response) =
     (case parsedChunks c response of
        Inl e \<Rightarrow> Inl e
      | Inr vs \<Rightarrow>
          Inr \<lparr>json = JObj [(js ''streamedResponse'', JArr vs)], pairedItem = None\<rparr>)"
| "streamed c v = Inl (JsError (js ''TypeError'') (typeErrorMessage c v (js ''split'')))"

text \<open>
  The branch for \<open>operation === 'chatCompletion'\<close>. It yields the record that the
  source pushes on \<open>returnData\<close>.
\<close>

definition chatCompletion :: "context \<Rightarrow> jsstring \<Rightarrow> params \<Rightarrow> node_execution_data io" where
  "chatCompletion c key p =
     (if length (messagesInput p) = 0
      then bindIO (call CallGetNode (\<lambda>tr. Inr (getNode c))) (\<lambda>node.
             throwIO (NodeOperationError node (js ''At least one message is required'')))
      else if stream p
      then bindIO (call (CallRequest (JObj (streamOptions key p)))
                     (\<lambda>tr. request c tr (JObj (streamOptions key p)))) (\<lambda>response.
             liftIO (streamed c response))
      else bindIO (call (CallRequest (JObj (requestOptions key p)))
                     (\<lambda>tr. request c tr (JObj (requestOptions key p)))) (\<lambda>response.
             returnIO \<lparr>json = response, pairedItem = None\<rparr>))"

text \<open>The body of the \<open>try\<close> block for item \<open>i\<close>.\<close>

definition try_body :: "context \<Rightarrow> jsstring \<Rightarrow> nat \<Rightarrow> node_execution_data io" where
  \<open>try_body c key i =
     bindIO (read_params c i) (\<lambda>p.
       if operation p = js ''chatCompletion''
       then chatCompletion c key p
       else bindIO (call CallGetNode (\<lambda>tr. Inr (getNode c))) (\<lambda>node.
              throwIO (NodeOperationError node
                (js ''The operation "'' @ operation p @ js ''" is not supported''))))\<close>

text \<open>The record that the \<open>catch\<close> block pushes for a failure of item \<open>i\<close>.\<close>

definition error_record :: "thrown \<Rightarrow> nat \<Rightarrow> node_execution_data" where
  "error_record error i =
     \<lparr>json = JObj [(js ''error'',
         JStr (case Error_message error of
                 Some m \<Rightarrow> m
               | None \<Rightarrow> js ''Unknown error occurred''))],
      pairedItem = Some \<lparr>item = i\<rparr>\<rparr>"

text \<open>
  One turn of the \<open>for\<close> loop: the \<open>try\<close> block, whose last statement pushes the item's
  record, and the \<open>catch\<close> block, which asks the host whether to continue.
\<close>

definition iteration ::
  "context \<Rightarrow> jsstring \<Rightarrow> nat \<Rightarrow> node_execution_data list \<Rightarrow> node_execution_data list io"
where
  "iteration c key i returnData =
     catchIO (bindIO (try_body c key i) (\<lambda>r. returnIO (returnData @ [r])))
       (\<lambda>error. bindIO (call CallContinueOnFail (\<lambda>tr. Inr (continueOnFail c))) (\<lambda>cof.
          if cof then returnIO (returnData @ [error_record error i])
          else throwIO error))"

function loop ::
  "context \<Rightarrow> jsstring \<Rightarrow> node_execution_data list \<Rightarrow> nat \<Rightarrow> node_execution_data list
     \<Rightarrow> node_execution_data list io"
where
  "loop c key items i returnData tr =
     (if i < length items
      then (case iteration c key i returnData tr of
              (Inl e, tr') \<Rightarrow> (Inl e, tr')
            | (Inr returnData', tr') \<Rightarrow> loop c key items (i + 1) returnData' tr')
      else (Inr returnData, tr))"
  by pat_completeness auto
termination
  by (relation "measure (\<lambda>(c, key, items, i, returnData, tr). length items - i)") auto

definition execute :: "context \<Rightarrow> node_execution_data list list io" where
  "execute c =
     bindIO (call CallGetInputData (\<lambda>tr. Inr (getInputData c))) (\<lambda>items.
     bindIO (call (CallGetCredentials (js ''openRouterApi''))
               (\<lambda>tr. getCredentials c tr (js ''openRouterApi''))) (\<lambda>credentials.
     bindIO (loop c (apiKey credentials) items 0 []) (\<lambda>returnData.
     returnIO [returnData])))"

section \<open>The model-list provider: \<open>getModels\<close>\<close>

definition modelsRequestOptions :: "jsstring \<Rightarrow> (jsstring \<times> jsval) list" where
  "modelsRequestOptions key =
     [(js ''method'', JStr (js ''GET'')),
      (js ''url'', JStr (js ''https://openrouter.ai/api/v1/models'')),
      (js ''headers'', JObj
         [(js ''Authorization'', JStr (js ''Bearer '' @ key)),
          (js ''HTTP-Referer'', JStr (js ''https://n8n.io'')),
          (js ''X-Title'', JStr (js ''n8n OpenRouter Node''))]),
      (js ''json'', JBool True)]"

text \<open>The callback of \<open>models.map\<close>: it reads \<open>model.id\<close> and \<open>model.description\<close>.\<close>

definition model_option :: "context \<Rightarrow> jsval \<Rightarrow> thrown + node_property_options" where
  "model_option c model' =
     (case get_prop c model' (js ''id'') of
        Inl e \<Rightarrow> Inl e
      | Inr name' \<Rightarrow>
          (case get_prop c model' (js ''id'') of
             Inl e \<Rightarrow> Inl e
           | Inr value' \<Rightarrow>
               (case get_prop c model' (js ''description'') of
                  Inl e \<Rightarrow> Inl e
                | Inr description' \<Rightarrow>
                    Inr \<lparr>opt_name = name', opt_value = value',
                         opt_description = description'\<rparr>)))"

fun elements :: "jsval \<Rightarrow> jsval list" where
  "elements (JArr vs) = vs"
| "elements v = []"

text \<open>
  The \<open>try\<close> block of \<open>getModels\<close>. The two \<open>console\<close> lines of the source print
  diagnostics and are left out.
\<close>

definition getModels_try :: "context \<Rightarrow> jsstring \<Rightarrow> node_property_options list io" where
  "getModels_try c key =
     bindIO (call (CallRequest (JObj (modelsRequestOptions key)))
               (\<lambda>tr. request c tr (JObj (modelsRequestOptions key)))) (\<lambda>response.
     bindIO (liftIO (get_prop c response (js ''data''))) (\<lambda>models.
       if \<not> truthy models \<or> \<not> isArray models
       then bindIO (call CallGetNode (\<lambda>tr. Inr (getNode c))) (\<lambda>node.
              throwIO (NodeOperationError node
                (js ''Invalid response format from OpenRouter API'')))
       else liftIO (map_throw (model_option c) (elements models))))"

definition getModels_catch :: "context \<Rightarrow> thrown \<Rightarrow> node_property_options list io" where
  "getModels_catch c error =
     (case Error_message error of
        Some m \<Rightarrow>
          bindIO (call CallGetNode (\<lambda>tr. Inr (getNode c))) (\<lambda>node.
            throwIO (NodeOperationError node
              (js ''Failed to load models from OpenRouter API: '' @ m)))
      | None \<Rightarrow>
          bindIO (call CallGetNode (\<lambda>tr. Inr (getNode c))) (\<lambda>node.
            throwIO (NodeOperationError node
              (js ''Failed to load models from OpenRouter API: Unknown error''))))"

definition getModels :: "context \<Rightarrow> node_property_options list io" where
  "getModels c =
     bindIO (call (CallGetCredentials (js ''openRouterApi''))
               (\<lambda>tr. getCredentials c tr (js ''openRouterApi''))) (\<lambda>credentials.
     catchIO (getModels_try c (apiKey credentials)) (getModels_catch c))"

section \<open>Notions used in the statements\<close>

text \<open>\<open>Array.prototype.join\<close> on strings, the inverse of \<open>split\<close>.\<close>

fun join :: "jsstring list \<Rightarrow> jsstring \<Rightarrow> jsstring" where
  "join [] sep = []"
| "join [p] sep = p"
| "join (p # q # ps) sep = p @ sep @ join (q # ps) sep"

text \<open>
  The first \<open>k\<close> turns of the loop, started with an empty \<open>returnData\<close>: the state in
  which item \<open>k\<close> is reached, or the error that ended the loop before.
\<close>

fun iterations :: "context \<Rightarrow> jsstring \<Rightarrow> nat \<Rightarrow> node_execution_data list io" where
  "iterations c key 0 = returnIO []"
| "iterations c key (Suc k) = bindIO (iterations c key k) (iteration c key k)"

text \<open>
  \<open>adds P m\<close>: whatever the log was, \<open>m\<close> only appends to it, and every event it
  appends satisfies \<open>P\<close>.
\<close>

definition adds :: "(event \<Rightarrow> bool) \<Rightarrow> 'a io \<Rightarrow> bool" where
  "adds P m = (\<forall>tr. \<exists>evs. snd (m tr) = tr @ evs \<and> list_all P evs)"

fun is_credentials_read :: "event \<Rightarrow> bool" where
  "is_credentials_read (CallGetCredentials n) = True"
| "is_credentials_read ev = False"

fun is_request :: "event \<Rightarrow> bool" where
  "is_request (CallRequest ro) = True"
| "is_request ev = False"

fun item_at_most :: "nat \<Rightarrow> event \<Rightarrow> bool" where
  "item_at_most k (CallGetNodeParameter n j) = (j \<le> k)"
| "item_at_most k ev = True"

text \<open>
  The \<open>Authorization\<close> header of request options, and the events that the processing of
  items may log when the API key is \<open>key\<close>: no read of the credentials, and requests
  only with \<open>Bearer key\<close>.
\<close>

fun authorization :: "jsval \<Rightarrow> jsval" where
  "authorization (JObj ro) =
     (case obj_get ro (js ''headers'') of
        JObj hs \<Rightarrow> obj_get hs (js ''Authorization'')
      | v \<Rightarrow> JUndefined)"
| "authorization v = JUndefined"

fun uses_key :: "jsstring \<Rightarrow> event \<Rightarrow> bool" where
  "uses_key key (CallRequest ro) = (authorization ro = JStr (js ''Bearer '' @ key))"
| "uses_key key (CallGetCredentials n) = False"
| "uses_key key ev = True"

text \<open>The nine parameter reads of item \<open>i\<close>, in the order of the source.\<close>

definition param_log :: "nat \<Rightarrow> event list" where
  "param_log i =
     [CallGetNodeParameter (js ''operation'') i,
      CallGetNodeParameter (js ''model'') i,
      CallGetNodeParameter (js ''messages.messagesValues'') i,
      CallGetNodeParameter (js ''max_tokens'') i,
      CallGetNodeParameter (js ''temperature'') i,
      CallGetNodeParameter (js ''top_p'') i,
      CallGetNodeParameter (js ''frequency_penalty'') i,
      CallGetNodeParameter (js ''presence_penalty'') i,
      CallGetNodeParameter (js ''stream'') i]"

section \<open>An example context\<close>

text \<open>
  A batch of three items. Item 1 has no messages, item 2 asks for a streamed response. The
  first message of the other items carries a key \<open>name\<close> besides \<open>role\<close> and \<open>content\<close>.
  \<open>demo_parse\<close> knows the two JSON texts of the example and rejects every other text.
\<close>

definition demo_messages :: "nat \<Rightarrow> (jsstring \<times> jsval) list list" where
  "demo_messages i =
     (if i = 1 then []
      else [[(js ''role'', JStr (js ''user'')), (js ''content'', JStr (js ''Hello'')),
             (js ''name'', JStr (js ''Ada''))],
            [(js ''content'', JStr (js ''Hi'')), (js ''role'', JStr (js ''assistant''))]])"

definition demo_parse :: "jsstring \<Rightarrow> jsstring + jsval" where
  \<open>demo_parse s =
     (if s = js ''{"a":1}'' then Inr (JObj [(js ''a'', JNum 1)])
      else if s = js ''{"a":2}'' then Inr (JObj [(js ''a'', JNum 2)])
      else Inl (js ''Unexpected token''))\<close>

definition demo_request :: "event list \<Rightarrow> jsval \<Rightarrow> thrown + jsval" where
  \<open>demo_request tr opts =
     (case opts of
        JObj kvs \<Rightarrow>
          if obj_get kvs (js ''method'') = JStr (js ''GET'')
          then Inr (JObj [(js ''data'',
                 JArr [JObj [(js ''id'', JStr (js ''m1'')),
                             (js ''description'', JStr (js ''d1''))]])])
          else if obj_get kvs (js ''json'') = JBool False
          then Inr (JStr (js ''data: {"a":1}\<newline>\<newline>data: {"a":2}\<newline>\<newline>''))
          else Inr (JObj [(js ''id'', JStr (js ''x''))])
      | _ \<Rightarrow> Inl (NonError JNull))\<close>

definition demo_context :: "context" where
  "demo_context =
     \<lparr>getInputData =
        [\<lparr>json = JObj [], pairedItem = None\<rparr>,
         \<lparr>json = JObj [], pairedItem = None\<rparr>,
         \<lparr>json = JObj [], pairedItem = None\<rparr>],
      getCredentials = (\<lambda>tr n. Inr \<lparr>apiKey = js ''sk-1''\<rparr>),
      getNodeParameter_string =
        (\<lambda>tr n i. if n = js ''operation'' then Inr (js ''chatCompletion'') else Inr (js ''m1'')),
      getNodeParameter_number = (\<lambda>tr n i. Inr 1),
      getNodeParameter_boolean = (\<lambda>tr n i. Inr (i = 2)),
      getNodeParameter_collection = (\<lambda>tr n i. Inr (demo_messages i)),
      request = demo_request,
      getNode = JObj [(js ''name'', JStr (js ''OpenRouter''))],
      continueOnFail = True,
      JSON_parse = demo_parse,
      typeErrorMessage = (\<lambda>v k. js ''Cannot read properties'')\<rparr>"

definition demo_params :: "nat \<Rightarrow> params" where
  "demo_params i =
     \<lparr>operation = js ''chatCompletion'', model = js ''m1'',
      messagesInput = map project_message (demo_messages i),
      max_tokens = 1, temperature = 1, top_p = 1, frequency_penalty = 1,
      presence_penalty = 1, stream = (i = 2)\<rparr>"

section \<open>String literals\<close>

lemma js_Nil: "js [] = []" by (simp add: js_def)
lemma js_Cons: "js (c # cs) = of_nat (of_char c) # js cs" by (simp add: js_def)
lemma js_append: "js (a @ b) = js a @ js b" by (simp add: js_def)

lemma of_char_lt: "(of_char c :: nat) < 65536"
proof -
  have "(of_char c :: nat) < 256" by (cases c) (simp)
  thus ?thesis by linarith
qed

lemma unit_inj: "(of_nat (of_char a) :: 16 word) = of_nat (of_char b) \<longleftrightarrow> a = b"
proof
  assume "(of_nat (of_char a) :: 16 word) = of_nat (of_char b)"
  hence "unat (of_nat (of_char a) :: 16 word) = unat (of_nat (of_char b) :: 16 word)" by simp
  hence "(of_char a :: nat) = of_char b"
    using of_char_lt[of a] of_char_lt[of b] by (simp add: unat_of_nat take_bit_nat_eq_self)
  thus "a = b" by simp
qed simp

lemma js_eq_iff [simp]: "js a = js b \<longleftrightarrow> a = b"
proof (induction a arbitrary: b)
  case Nil thus ?case by (cases b) (simp_all add: js_def)
next
  case (Cons x xs) thus ?case by (cases b) (auto simp: unit_inj js_Cons js_Nil)
qed

lemma js_eq_Nil [simp]: "js a = [] \<longleftrightarrow> a = []" "[] = js a \<longleftrightarrow> a = []"
  by (auto simp: js_def)

section \<open>Properties of the string built-ins\<close>

lemma trim_empty_iff: "trim s = [] \<longleftrightarrow> list_all is_whitespace s"
proof -
  have "trim s = [] \<longleftrightarrow> dropWhile is_whitespace s = []"
  proof
    assume "trim s = []"
    hence a: "\<forall>x\<in>set (dropWhile is_whitespace s). is_whitespace x"
      by (simp add: trim_def dropWhile_eq_Nil_conv)
    show "dropWhile is_whitespace s = []"
    proof (rule ccontr)
      assume ne: "dropWhile is_whitespace s \<noteq> []"
      hence "\<not> is_whitespace (hd (dropWhile is_whitespace s))"
        by (rule hd_dropWhile)
      with a ne show False by simp
    qed
  next
    assume "dropWhile is_whitespace s = []"
    thus "trim s = []" unfolding trim_def by (auto dest: set_dropWhileD)
  qed
  thus ?thesis by (simp add: dropWhile_eq_Nil_conv list_all_iff)
qed

lemma split_scan_nonempty: "split_scan sep cur s \<noteq> []"
  by (induction sep cur s rule: split_scan.induct) auto

lemma join_Cons: "ps \<noteq> [] \<Longrightarrow> join (p # ps) sep = p @ sep @ join ps sep"
  by (cases ps) simp_all

lemma split_scan_join: "join (split_scan sep cur s) sep = cur @ s"
proof (induction sep cur s rule: split_scan.induct)
  case (1 sep cur)
  show ?case by simp
next
  case (2 sep cur u us)
  show ?case
  proof (cases "sep \<noteq> [] \<and> prefix sep (u # us)")
    case True
    then obtain zs where zs: "u # us = sep @ zs" by (auto simp: prefix_def)
    hence d: "drop (length sep) (u # us) = zs" by simp
    from 2(1)[OF True] have j: "join (split_scan sep [] zs) sep = zs" using d by simp
    have "split_scan sep cur (u # us) = cur # split_scan sep [] (drop (length sep) (u # us))"
      using True by (simp del: drop_Suc_Cons)
    hence "join (split_scan sep cur (u # us)) sep = cur @ sep @ join (split_scan sep [] zs) sep"
      by (simp only: d join_Cons[OF split_scan_nonempty])
    thus ?thesis by (simp only: j zs)
  next
    case False
    with 2(2) show ?thesis by auto
  qed
qed

lemma split_join: "sep \<noteq> [] \<Longrightarrow> join (split s sep) sep = s"
  by (simp add: split_def split_scan_join)

lemma sublist_drop_prefix:
  assumes "sublist sep xs" "sep \<noteq> []"
  shows "\<exists>j<length xs. prefix sep (drop j xs)"
proof -
  from assms obtain ps ss where xs: "xs = ps @ sep @ ss" by (auto simp: sublist_def)
  have "length ps < length xs" using xs assms(2) by (cases sep) auto
  moreover have "prefix sep (drop (length ps) xs)" using xs by simp
  ultimately show ?thesis by blast
qed

lemma split_scan_pieces:
  assumes "sep \<noteq> []" "\<forall>j<length cur. \<not> prefix sep (drop j (cur @ s))"
  shows "\<forall>p\<in>set (split_scan sep cur s). \<not> sublist sep p"
  using assms
proof (induction sep cur s rule: split_scan.induct)
  case (1 sep cur)
  show ?case
  proof (clarsimp)
    assume "sublist sep cur"
    from sublist_drop_prefix[OF this 1(1)] 1(2) show False by auto
  qed
next
  case (2 sep cur u us)
  show ?case
  proof (cases "sep \<noteq> [] \<and> prefix sep (u # us)")
    case True
    have nc: "\<not> sublist sep cur"
    proof
      assume "sublist sep cur"
      from sublist_drop_prefix[OF this 2(3)] obtain j where j: "j < length cur" "prefix sep (drop j cur)" by blast
      hence "prefix sep (drop j (cur @ u # us))" by (auto simp: prefix_def)
      with 2(4) j show False by blast
    qed
    have "\<forall>p\<in>set (split_scan sep [] (drop (length sep) (u # us))). \<not> sublist sep p"
      using 2(1)[OF True 2(3)] by simp
    thus ?thesis using True nc by (simp del: drop_Suc_Cons)
  next
    case False
    have "\<forall>j<length (cur @ [u]). \<not> prefix sep (drop j ((cur @ [u]) @ us))"
    proof (intro allI impI)
      fix j assume "j < length (cur @ [u])"
      hence "j < length cur \<or> j = length cur" by auto
      thus "\<not> prefix sep (drop j ((cur @ [u]) @ us))"
      proof
        assume "j < length cur" with 2(4) show ?thesis by simp
      next
        assume "j = length cur" with False 2(3) show ?thesis by simp
      qed
    qed
    from 2(2)[OF False 2(3) this] False show ?thesis by auto
  qed
qed

lemma split_pieces: "sep \<noteq> [] \<Longrightarrow> p \<in> set (split s sep) \<Longrightarrow> \<not> sublist sep p"
  using split_scan_pieces[of sep "[]" s] by (simp add: split_def)

lemma replace_none: "\<not> sublist pat s \<Longrightarrow> replace s pat rep = s"
proof (induction s)
  case Nil thus ?case by auto
next
  case (Cons u us)
  have "\<not> prefix pat (u # us)" using Cons.prems by (auto simp: prefix_def sublist_def) (metis append_Nil)
  moreover have "\<not> sublist pat us" using Cons.prems by (auto simp: sublist_Cons_right)
  ultimately show ?case using Cons.IH by simp
qed

lemma replace_first:
  "\<not> sublist pat (pre @ butlast pat) \<Longrightarrow> replace (pre @ pat @ post) pat rep = pre @ rep @ post"
proof (induction pre)
  case Nil
  hence ne: "pat \<noteq> []" by auto
  then obtain u us where "pat @ post = u # us" by (cases pat) auto
  thus ?case by (simp add: ne) (metis append_eq_conv_conj prefixI)
next
  case (Cons x pre)
  hence ne: "pat \<noteq> []" by auto
  have np: "\<not> prefix pat (x # pre @ pat @ post)"
  proof
    assume a: "prefix pat (x # pre @ pat @ post)"
    have "butlast pat @ last pat # post = pat @ post"
      using ne by (induction pat) auto
    hence "x # pre @ pat @ post = ((x # pre) @ butlast pat) @ (last pat # post)"
      by simp
    with a have "prefix pat (((x # pre) @ butlast pat) @ (last pat # post))"
      by (simp only:)
    moreover have "length pat \<le> length ((x # pre) @ butlast pat)" by simp
    ultimately have "prefix pat ((x # pre) @ butlast pat)"
      by (metis prefix_length_prefix prefixI)
    with Cons.prems show False by (auto simp: sublist_def prefix_def) (metis append_Nil)
  qed
  have "\<not> sublist pat (pre @ butlast pat)" using Cons.prems by (auto simp: sublist_Cons_right)
  with Cons.IH np show ?case by simp
qed

lemma chunks_example:
  \<open>chunks (js ''data: {"a":1}\<newline>\<newline>data: {"a":2}\<newline>\<newline>'') =
     [js ''data: {"a":1}'', js ''data: {"a":2}'']\<close>
  by (simp add: js_def chunks_def split_def trim_def is_whitespace_def)

lemma replace_example:
  \<open>replace (js ''data: {"a":1}'') (js ''data: '') [] = js ''{"a":1}''\<close>
  \<open>replace (js ''data: {"a":2}'') (js ''data: '') [] = js ''{"a":2}''\<close>
  by (simp_all add: js_def)


section \<open>Logs\<close>

lemmas io_defs = bindIO_def returnIO_def throwIO_def catchIO_def liftIO_def call_def
lemma addsI: "(\<And>tr. \<exists>evs. snd (m tr) = tr @ evs \<and> list_all P evs) \<Longrightarrow> adds P m"
  by (simp add: adds_def)

lemma addsD: "adds P m \<Longrightarrow> m tr = (r, tr') \<Longrightarrow> \<exists>evs. tr' = tr @ evs \<and> list_all P evs"
  by (auto simp: adds_def dest: spec[of _ tr])

lemma adds_returnIO: "adds P (returnIO x)"
  by (simp add: adds_def returnIO_def)

lemma adds_throwIO: "adds P (throwIO e)"
  by (simp add: adds_def throwIO_def)

lemma adds_liftIO: "adds P (liftIO r)"
  by (simp add: adds_def liftIO_def)

lemma adds_call: "P ev \<Longrightarrow> adds P (call ev f)"
  by (simp add: adds_def call_def)

lemma adds_bindIO:
  assumes m: "adds P m" and f: "\<And>x. adds P (f x)"
  shows "adds P (bindIO m f)"
proof (rule addsI)
  fix tr
  obtain r tr' where mt: "m tr = (r, tr')" by (cases "m tr")
  from addsD[OF m mt] obtain evs where evs: "tr' = tr @ evs" "list_all P evs" by blast
  show "\<exists>evs. snd (bindIO m f tr) = tr @ evs \<and> list_all P evs"
  proof (cases r)
    case (Inl e)
    with mt evs show ?thesis by (auto simp: bindIO_def)
  next
    case (Inr x)
    obtain r2 tr2 where ft: "f x tr' = (r2, tr2)" by (cases "f x tr'")
    from addsD[OF f ft] obtain evs2 where "tr2 = tr' @ evs2" "list_all P evs2" by blast
    with Inr mt evs ft show ?thesis by (auto simp: bindIO_def)
  qed
qed

lemma adds_catchIO:
  assumes m: "adds P m" and h: "\<And>e. adds P (h e)"
  shows "adds P (catchIO m h)"
proof (rule addsI)
  fix tr
  obtain r tr' where mt: "m tr = (r, tr')" by (cases "m tr")
  from addsD[OF m mt] obtain evs where evs: "tr' = tr @ evs" "list_all P evs" by blast
  show "\<exists>evs. snd (catchIO m h tr) = tr @ evs \<and> list_all P evs"
  proof (cases r)
    case (Inr x)
    with mt evs show ?thesis by (auto simp: catchIO_def)
  next
    case (Inl e)
    obtain r2 tr2 where ft: "h e tr' = (r2, tr2)" by (cases "h e tr'")
    from addsD[OF h ft] obtain evs2 where "tr2 = tr' @ evs2" "list_all P evs2" by blast
    with Inl mt evs ft show ?thesis by (auto simp: catchIO_def)
  qed
qed

lemma adds_if: "adds P m \<Longrightarrow> adds P n \<Longrightarrow> adds P (if b then m else n)"
  by simp

lemmas adds_intros = adds_bindIO adds_catchIO adds_if adds_returnIO adds_throwIO adds_liftIO

lemma adds_read_params:
  "(\<And>n. P (CallGetNodeParameter n i)) \<Longrightarrow> adds P (read_params c i)"
  unfolding read_params_def
  by (intro adds_intros adds_call)

lemma adds_chatCompletion:
  assumes "P CallGetNode"
    "\<And>q. P (CallRequest (JObj (streamOptions key q)))"
    "\<And>q. P (CallRequest (JObj (requestOptions key q)))"
  shows "adds P (chatCompletion c key p)"
  unfolding chatCompletion_def
  by (intro adds_intros adds_call assms)

lemma adds_try_body:
  assumes "\<And>n. P (CallGetNodeParameter n i)" "P CallGetNode"
    "\<And>q. P (CallRequest (JObj (streamOptions key q)))"
    "\<And>q. P (CallRequest (JObj (requestOptions key q)))"
  shows "adds P (try_body c key i)"
  unfolding try_body_def
  by (intro adds_intros adds_call adds_read_params adds_chatCompletion assms)

lemma adds_iteration:
  assumes "\<And>n. P (CallGetNodeParameter n i)" "P CallGetNode"
    "\<And>q. P (CallRequest (JObj (streamOptions key q)))"
    "\<And>q. P (CallRequest (JObj (requestOptions key q)))"
    "P CallContinueOnFail"
  shows "adds P (iteration c key i rd)"
  unfolding iteration_def
  by (intro adds_intros adds_call adds_try_body assms)

lemma adds_iterations:
  assumes "\<And>n i. i < k \<Longrightarrow> P (CallGetNodeParameter n i)" "P CallGetNode"
    "\<And>q. P (CallRequest (JObj (streamOptions key q)))"
    "\<And>q. P (CallRequest (JObj (requestOptions key q)))"
    "P CallContinueOnFail"
  shows "adds P (iterations c key k)"
  using assms(1)
proof (induction k)
  case 0
  show ?case by (simp add: adds_returnIO)
next
  case (Suc k)
  have "adds P (iterations c key k)" using Suc by simp
  moreover have "\<And>rd. adds P (iteration c key k rd)"
    by (rule adds_iteration) (use Suc.prems assms in auto)
  ultimately show ?case by (simp add: adds_bindIO)
qed

section \<open>The loop and its first turns\<close>

lemma loop_unfold:
  "loop c key items i rd tr =
     (if i < length items then bindIO (iteration c key i rd) (loop c key items (i + 1)) tr
      else returnIO rd tr)"
  by (subst loop.simps) (auto simp: bindIO_def returnIO_def split: prod.splits sum.splits)

lemma loop_iterations_aux:
  "i \<le> length items \<Longrightarrow> iterations c key i tr0 = (Inr rd, tr) \<Longrightarrow>
     loop c key items i rd tr = iterations c key (length items) tr0"
proof (induction c key items i rd tr rule: loop.induct)
  case (1 c key items i returnData tr)
  show ?case
  proof (cases "i < length items")
    case False
    with 1(2) have "i = length items" by simp
    with 1(3) False show ?thesis by (subst loop.simps) simp
  next
    case True
    obtain r tr' where it: "iteration c key i returnData tr = (r, tr')"
      by (cases "iteration c key i returnData tr")
    have step: "iterations c key (Suc i) tr0 = (r, tr')"
      using 1(3) it by (simp add: bindIO_def)
    show ?thesis
    proof (cases r)
      case (Inr rd')
      have "loop c key items (i + 1) rd' tr' = iterations c key (length items) tr0"
        using 1(1)[OF True it[symmetric, unfolded Inr] refl] True step Inr by simp
      thus ?thesis using True it Inr by (subst loop.simps) simp
    next
      case (Inl e)
      have "\<And>n. i < n \<Longrightarrow> iterations c key n tr0 = (Inl e, tr')"
      proof -
        fix n assume "i < n"
        then obtain d where "n = Suc i + d" using less_iff_Suc_add by auto
        moreover have "iterations c key (Suc i + d) tr0 = (Inl e, tr')"
          by (induction d) (use step Inl in \<open>auto simp: bindIO_def\<close>)
        ultimately show "iterations c key n tr0 = (Inl e, tr')" by simp
      qed
      with True have "iterations c key (length items) tr0 = (Inl e, tr')" by blast
      thus ?thesis using True it Inl by (subst loop.simps) simp
    qed
  qed
qed

lemma loop_iterations: "loop c key items 0 [] tr = iterations c key (length items) tr"
  using loop_iterations_aux[of 0 items c key tr "[]" tr] by (simp add: returnIO_def)


section \<open>Reading the parameters\<close>

lemma read_params_log:
  assumes "read_params c i tr = (Inr p, tr1)"
  shows "tr1 = tr @ param_log i"
  using assms unfolding read_params_def param_log_def
  by (auto simp: io_defs split: sum.splits)

lemma read_params_messages:
  assumes "read_params c i tr = (Inr p, tr1)"
  shows "\<exists>ms. getNodeParameter_collection c
            (tr @ [CallGetNodeParameter (js ''operation'') i, CallGetNodeParameter (js ''model'') i])
            (js ''messages.messagesValues'') i = Inr ms
          \<and> messagesInput p = map project_message ms"
  using assms unfolding read_params_def
  by (auto simp: io_defs split: sum.splits)

section \<open>The streamed response\<close>

lemma map_throw_all_ok:
  "\<forall>x\<in>set xs. \<exists>y. f x = Inr y \<Longrightarrow> map_throw f xs = Inr (map (\<lambda>x. projr (f x)) xs)"
  by (induction xs) auto

lemma map_throw_some_fail:
  "\<exists>x\<in>set xs. \<exists>e. f x = Inl e \<Longrightarrow>
     \<exists>x\<in>set xs. \<exists>e. f x = Inl e \<and> map_throw f xs = Inl e"
proof (induction xs)
  case Nil thus ?case by simp
next
  case (Cons a xs)
  show ?case
  proof (cases "f a")
    case (Inl e) thus ?thesis by simp
  next
    case (Inr y)
    with Cons.prems have "\<exists>x\<in>set xs. \<exists>e. f x = Inl e" by auto
    from Cons.IH[OF this] obtain x e where "x \<in> set xs" "f x = Inl e" "map_throw f xs = Inl e"
      by blast
    with Inr show ?thesis by auto
  qed
qed

lemma chunks_filter:
  "chunks response =
     filter (\<lambda>chunk. \<not> list_all is_whitespace chunk) (split response (js ''\<newline>\<newline>''))"
  by (simp add: chunks_def trim_empty_iff)

lemma try_body_stream:
  assumes params: "read_params c i tr = (Inr p, tr1)"
    and op: "operation p = js ''chatCompletion''"
    and msgs: "messagesInput p \<noteq> []"
    and st: "stream p"
    and resp: "request c tr1 (JObj (streamOptions key p)) = Inr (JStr response)"
  shows "try_body c key i tr =
     (case parsedChunks c response of
        Inl e \<Rightarrow> Inl e
      | Inr vs \<Rightarrow> Inr \<lparr>json = JObj [(js ''streamedResponse'', JArr vs)], pairedItem = None\<rparr>,
      tr1 @ [CallRequest (JObj (streamOptions key p))])"
  using assms by (simp add: try_body_def chatCompletion_def io_defs)

text \<open>
  Claim C1. An item in streaming mode whose response body is a text string: the body is
  split at the double newlines, the pieces that are empty or all white space are dropped,
  the first \<open>data: \<close> is removed from each remaining piece and the rest is parsed as
  JSON. If every rest parses, the item's record is \<open>{json: {streamedResponse: vs}}\<close>
  with the parsed values \<open>vs\<close> in the order of the pieces. If some rest does not parse,
  the item fails with the \<open>SyntaxError\<close> of such a piece: nothing is skipped. For the body
  \<open>data: {"a":1}\n\ndata: {"a":2}\n\n\<close> the record holds exactly the two values
  \<open>{"a":1}\<close> and \<open>{"a":2}\<close>.
\<close>

theorem streaming_output:
  assumes params: "read_params c i tr = (Inr p, tr1)"
    and op: "operation p = js ''chatCompletion''"
    and msgs: "messagesInput p \<noteq> []"
    and st: "stream p"
    and resp: "request c tr1 (JObj (streamOptions key p)) = Inr (JStr response)"
  shows \<open>let frames = filter (\<lambda>chunk. \<not> list_all is_whitespace chunk)
                        (split response (js ''\<newline>\<newline>''));
             residual = (\<lambda>chunk. replace chunk (js ''data: '') []);
             tr2 = tr1 @ [CallRequest (JObj (streamOptions key p))]
         in ((\<forall>chunk\<in>set frames. \<exists>v. JSON_parse c (residual chunk) = Inr v) \<longrightarrow>
               try_body c key i tr =
                 (Inr \<lparr>json = JObj [(js ''streamedResponse'',
                          JArr (map (\<lambda>chunk. projr (JSON_parse c (residual chunk))) frames))],
                       pairedItem = None\<rparr>, tr2))
          \<and> ((\<exists>chunk\<in>set frames. \<exists>m. JSON_parse c (residual chunk) = Inl m) \<longrightarrow>
               (\<exists>chunk\<in>set frames. \<exists>m. JSON_parse c (residual chunk) = Inl m \<and>
                  try_body c key i tr = (Inl (JsError (js ''SyntaxError'') m), tr2)))
          \<and> (response = js ''data: {"a":1}\<newline>\<newline>data: {"a":2}\<newline>\<newline>'' \<longrightarrow>
              JSON_parse c (js ''{"a":1}'') = Inr (JObj [(js ''a'', JNum 1)]) \<longrightarrow>
              JSON_parse c (js ''{"a":2}'') = Inr (JObj [(js ''a'', JNum 2)]) \<longrightarrow>
               try_body c key i tr =
                 (Inr \<lparr>json = JObj [(js ''streamedResponse'',
                          JArr [JObj [(js ''a'', JNum 1)], JObj [(js ''a'', JNum 2)]])],
                       pairedItem = None\<rparr>, tr2))\<close>
proof -
  define frames where "frames = filter (\<lambda>chunk. \<not> list_all is_whitespace chunk)
                        (split response (js ''\<newline>\<newline>''))"
  define residual where "residual = (\<lambda>chunk. replace chunk (js ''data: '') [])"
  define tr2 where "tr2 = tr1 @ [CallRequest (JObj (streamOptions key p))]"
  have fr: "chunks response = frames" by (simp add: chunks_filter frames_def)
  note tb = try_body_stream[OF assms, folded tr2_def]
  have pc: "\<And>chunk. parse_chunk c chunk =
      (case JSON_parse c (residual chunk) of Inl m \<Rightarrow> Inl (JsError (js ''SyntaxError'') m) | Inr v \<Rightarrow> Inr v)"
    by (simp add: parse_chunk_def residual_def)
  have a: "try_body c key i tr =
        (Inr \<lparr>json = JObj [(js ''streamedResponse'',
                  JArr (map (\<lambda>chunk. projr (JSON_parse c (residual chunk))) frames))],
               pairedItem = None\<rparr>, tr2)"
    if ok: "\<forall>chunk\<in>set frames. \<exists>v. JSON_parse c (residual chunk) = Inr v"
  proof -
    have "\<forall>chunk\<in>set frames. \<exists>v. parse_chunk c chunk = Inr v" using ok by (auto simp: pc)
    from map_throw_all_ok[OF this]
    have "parsedChunks c response = Inr (map (\<lambda>chunk. projr (parse_chunk c chunk)) frames)"
      by (simp add: parsedChunks_def fr)
    moreover have "map (\<lambda>chunk. projr (parse_chunk c chunk)) frames
        = map (\<lambda>chunk. projr (JSON_parse c (residual chunk))) frames"
      using ok by (auto simp: pc)
    ultimately show ?thesis using tb by simp
  qed
  have b: "\<exists>chunk\<in>set frames. \<exists>m. JSON_parse c (residual chunk) = Inl m \<and>
        try_body c key i tr = (Inl (JsError (js ''SyntaxError'') m), tr2)"
    if bad: "\<exists>chunk\<in>set frames. \<exists>m. JSON_parse c (residual chunk) = Inl m"
  proof -
    have "\<exists>chunk\<in>set frames. \<exists>e. parse_chunk c chunk = Inl e"
    proof -
      from bad obtain chunk m where "chunk \<in> set frames" "JSON_parse c (residual chunk) = Inl m"
        by blast
      thus ?thesis by (intro bexI[of _ chunk]) (simp_all add: pc)
    qed
    from map_throw_some_fail[OF this] obtain chunk e where ch: "chunk \<in> set frames"
      "parse_chunk c chunk = Inl e" "map_throw (parse_chunk c) frames = Inl e" by blast
    from ch(2) obtain m where m: "JSON_parse c (residual chunk) = Inl m"
      "e = JsError (js ''SyntaxError'') m"
      by (auto simp: pc split: sum.splits)
    have "try_body c key i tr = (Inl (JsError (js ''SyntaxError'') m), tr2)"
      using tb ch(3) m(2) by (simp add: parsedChunks_def fr)
    with ch(1) m(1) show ?thesis by blast
  qed
  have ex: "try_body c key i tr =
        (Inr \<lparr>json = JObj [(js ''streamedResponse'',
                  JArr [JObj [(js ''a'', JNum 1)], JObj [(js ''a'', JNum 2)]])],
               pairedItem = None\<rparr>, tr2)"
    if r: \<open>response = js ''data: {"a":1}\<newline>\<newline>data: {"a":2}\<newline>\<newline>''\<close>
      and p1: \<open>JSON_parse c (js ''{"a":1}'') = Inr (JObj [(js ''a'', JNum 1)])\<close>
      and p2: \<open>JSON_parse c (js ''{"a":2}'') = Inr (JObj [(js ''a'', JNum 2)])\<close>
    using tb p1 p2 unfolding r
    by (simp add: parsedChunks_def chunks_example parse_chunk_def replace_example)
  show ?thesis
    using a b ex unfolding Let_def frames_def[symmetric] residual_def[symmetric] tr2_def[symmetric]
    by blast
qed

theorem streaming_output_witness:
  \<open>read_params demo_context 2 [] = (Inr (demo_params 2), param_log 2)
   \<and> operation (demo_params 2) = js ''chatCompletion''
   \<and> messagesInput (demo_params 2) \<noteq> []
   \<and> stream (demo_params 2)
   \<and> request demo_context (param_log 2) (JObj (streamOptions (js ''sk-1'') (demo_params 2)))
       = Inr (JStr (js ''data: {"a":1}\<newline>\<newline>data: {"a":2}\<newline>\<newline>''))
   \<and> try_body demo_context (js ''sk-1'') 2 [] =
       (Inr \<lparr>json = JObj [(js ''streamedResponse'',
                 JArr [JObj [(js ''a'', JNum 1)], JObj [(js ''a'', JNum 2)]])],
              pairedItem = None\<rparr>,
        param_log 2 @ [CallRequest (JObj (streamOptions (js ''sk-1'') (demo_params 2)))])\<close>
proof -
  have h1: "read_params demo_context 2 [] = (Inr (demo_params 2), param_log 2)"
    by (simp add: read_params_def io_defs demo_context_def demo_params_def param_log_def)
  have h2: "operation (demo_params 2) = js ''chatCompletion''"
    by (simp add: demo_params_def)
  have h3: "messagesInput (demo_params 2) \<noteq> []"
    by (simp add: demo_params_def demo_messages_def)
  have h4: "stream (demo_params 2)"
    by (simp add: demo_params_def)
  have h5: \<open>request demo_context (param_log 2) (JObj (streamOptions (js ''sk-1'') (demo_params 2)))
       = Inr (JStr (js ''data: {"a":1}\<newline>\<newline>data: {"a":2}\<newline>\<newline>''))\<close>
    by (simp add: demo_context_def demo_request_def streamOptions_def requestOptions_def
        obj_get_def)
  have p1: \<open>JSON_parse demo_context (js ''{"a":1}'') = Inr (JObj [(js ''a'', JNum 1)])\<close>
    and p2: \<open>JSON_parse demo_context (js ''{"a":2}'') = Inr (JObj [(js ''a'', JNum 2)])\<close>
    by (simp_all add: demo_context_def demo_parse_def)
  from streaming_output[OF h1 h2 h3 h4 h5] p1 p2
  have "try_body demo_context (js ''sk-1'') 2 [] =
       (Inr \<lparr>json = JObj [(js ''streamedResponse'',
                 JArr [JObj [(js ''a'', JNum 1)], JObj [(js ''a'', JNum 2)]])],
              pairedItem = None\<rparr>,
        param_log 2 @ [CallRequest (JObj (streamOptions (js ''sk-1'') (demo_params 2)))])"
    unfolding Let_def by blast
  with h1 h2 h3 h4 h5 show ?thesis by blast
qed


section \<open>Records and failures of a batch\<close>

lemma iteration_cases:
  "iteration c key i rd tr =
     (case try_body c key i tr of
        (Inr r, tr') \<Rightarrow> (Inr (rd @ [r]), tr')
      | (Inl e, tr') \<Rightarrow>
          (if continueOnFail c then Inr (rd @ [error_record e i]) else Inl e,
           tr' @ [CallContinueOnFail]))"
  by (simp add: iteration_def io_defs split: prod.splits sum.splits)

lemma iterations_Suc_Inr:
  assumes "iterations c key (Suc k) tr = (Inr rd', tr')"
  shows "\<exists>rd trk. iterations c key k tr = (Inr rd, trk) \<and> iteration c key k rd trk = (Inr rd', tr')"
  using assms by (auto simp: bindIO_def split: prod.splits sum.splits)

lemma iteration_Inr:
  assumes "iteration c key k rd tr = (Inr rd', tr')"
  shows "rd' = rd @ [case try_body c key k tr of
                       (Inr r, tr2) \<Rightarrow> r | (Inl e, tr2) \<Rightarrow> error_record e k]"
  using assms by (auto simp: iteration_cases split: prod.splits sum.splits if_splits)

lemma iterations_length:
  "iterations c key k tr = (Inr rd, tr') \<Longrightarrow> length rd = k"
proof (induction k arbitrary: rd tr')
  case 0 thus ?case by (simp add: returnIO_def)
next
  case (Suc k)
  from iterations_Suc_Inr[OF Suc.prems] obtain rd0 trk where
    a: "iterations c key k tr = (Inr rd0, trk)" "iteration c key k rd0 trk = (Inr rd, tr')" by blast
  from iteration_Inr[OF a(2)] Suc.IH[OF a(1)] show ?case by simp
qed

lemma iterations_take:
  "iterations c key k tr = (Inr rd, tr') \<Longrightarrow> j \<le> k \<Longrightarrow>
     \<exists>trj. iterations c key j tr = (Inr (take j rd), trj)"
proof (induction k arbitrary: rd tr')
  case 0 thus ?case by (simp add: returnIO_def)
next
  case (Suc k)
  from iterations_Suc_Inr[OF Suc.prems(1)] obtain rd0 trk where
    a: "iterations c key k tr = (Inr rd0, trk)" "iteration c key k rd0 trk = (Inr rd, tr')" by blast
  show ?case
  proof (cases "j = Suc k")
    case True
    with Suc.prems(1) iterations_length[OF Suc.prems(1)] show ?thesis by simp
  next
    case False
    with Suc.prems(2) have jk: "j \<le> k" by simp
    from Suc.IH[OF a(1) jk] obtain trj where "iterations c key j tr = (Inr (take j rd0), trj)" by blast
    moreover have "take j rd = take j rd0"
      using iteration_Inr[OF a(2)] iterations_length[OF a(1)] jk by simp
    ultimately show ?thesis by auto
  qed
qed

lemma iterations_nth:
  assumes n: "iterations c key n tr = (Inr out, tr')" and j: "j < n"
  shows "\<exists>trj. iterations c key j tr = (Inr (take j out), trj)
           \<and> out ! j = (case try_body c key j trj of
                          (Inr r, tr2) \<Rightarrow> r | (Inl e, tr2) \<Rightarrow> error_record e j)"
proof -
  from iterations_take[OF n, of "Suc j"] j obtain trs where
    s: "iterations c key (Suc j) tr = (Inr (take (Suc j) out), trs)" by auto
  from iterations_Suc_Inr[OF s] obtain rd trj where
    a: "iterations c key j tr = (Inr rd, trj)" "iteration c key j rd trj = (Inr (take (Suc j) out), trs)"
    by blast
  from iterations_take[OF n, of j] j a(1) have rd: "rd = take j out" by auto
  have len: "length out = n" by (rule iterations_length[OF n])
  from iteration_Inr[OF a(2)] have
    "take (Suc j) out = rd @ [case try_body c key j trj of (Inr r, tr2) \<Rightarrow> r | (Inl e, tr2) \<Rightarrow> error_record e j]" .
  hence "(take (Suc j) out) ! j = (case try_body c key j trj of (Inr r, tr2) \<Rightarrow> r | (Inl e, tr2) \<Rightarrow> error_record e j)"
    using rd len j by (simp add: nth_append)
  moreover have "(take (Suc j) out) ! j = out ! j" by simp
  ultimately show ?thesis using a(1) rd by auto
qed

lemma iterations_all_reached:
  assumes ok: "\<forall>j<n. continueOnFail c \<or>
       (\<forall>rd trj. iterations c key j tr = (Inr rd, trj) \<longrightarrow>
          (\<exists>r tr2. try_body c key j trj = (Inr r, tr2)))"
  shows "\<exists>out tr'. iterations c key n tr = (Inr out, tr')"
  using ok
proof (induction n)
  case 0 show ?case by (simp add: returnIO_def)
next
  case (Suc n)
  from Suc.IH Suc.prems obtain rd trn where a: "iterations c key n tr = (Inr rd, trn)" by auto
  from Suc.prems have "continueOnFail c \<or> (\<exists>r tr2. try_body c key n trn = (Inr r, tr2))"
    using a by auto
  hence "\<exists>out tr'. iteration c key n rd trn = (Inr out, tr')"
    by (auto simp: iteration_cases split: prod.splits sum.splits)
  thus ?case using a by (auto simp: bindIO_def)
qed

lemma execute_iterations:
  assumes "getCredentials c (tr0 @ [CallGetInputData]) (js ''openRouterApi'') = Inr cr"
  shows "execute c tr0 =
     (case iterations c (apiKey cr) (length (getInputData c))
             (tr0 @ [CallGetInputData, CallGetCredentials (js ''openRouterApi'')]) of
        (Inl e, tr) \<Rightarrow> (Inl e, tr)
      | (Inr rd, tr) \<Rightarrow> (Inr [rd], tr))"
proof -
  let ?tr1 = "tr0 @ [CallGetInputData, CallGetCredentials (js ''openRouterApi'')]"
  obtain r tr where l: "loop c (apiKey cr) (getInputData c) 0 [] ?tr1 = (r, tr)"
    by (cases "loop c (apiKey cr) (getInputData c) 0 [] ?tr1")
  have "execute c tr0 = (case r of Inl e \<Rightarrow> (Inl e, tr) | Inr rd \<Rightarrow> (Inr [rd], tr))"
    using assms l by (cases r) (simp_all add: execute_def io_defs)
  moreover have "iterations c (apiKey cr) (length (getInputData c)) ?tr1 = (r, tr)"
    using l by (simp only: loop_iterations)
  ultimately show ?thesis by (cases r) simp_all
qed

text \<open>
  Claim C6. A batch in which every item either succeeds or fails while continue-on-fail
  is active (and whose credentials could be read): \<open>execute\<close> returns one list \<open>out\<close>
  with exactly one record per input item, and \<open>out ! j\<close> is the record of item \<open>j\<close>:
  the record its \<open>try\<close> block produced, or its error record. The items are reached in
  their order, item \<open>j\<close> with the records of the items before it already pushed.
\<close>

theorem one_record_per_item:
  assumes creds: "getCredentials c (tr0 @ [CallGetInputData]) (js ''openRouterApi'') = Inr cr"
    and ok: "\<forall>j<length (getInputData c). continueOnFail c \<or>
       (\<forall>rd trj. iterations c (apiKey cr) j
           (tr0 @ [CallGetInputData, CallGetCredentials (js ''openRouterApi'')]) = (Inr rd, trj) \<longrightarrow>
          (\<exists>r tr2. try_body c (apiKey cr) j trj = (Inr r, tr2)))"
  shows "\<exists>out tr'. execute c tr0 = (Inr [out], tr')
     \<and> length out = length (getInputData c)
     \<and> (\<forall>j<length (getInputData c). \<exists>trj.
          iterations c (apiKey cr) j
            (tr0 @ [CallGetInputData, CallGetCredentials (js ''openRouterApi'')])
            = (Inr (take j out), trj)
          \<and> out ! j = (case try_body c (apiKey cr) j trj of
                         (Inr r, tr2) \<Rightarrow> r | (Inl e, tr2) \<Rightarrow> error_record e j))"
proof -
  let ?tr1 = "tr0 @ [CallGetInputData, CallGetCredentials (js ''openRouterApi'')]"
  let ?n = "length (getInputData c)"
  from iterations_all_reached[OF ok] obtain out tr' where
    it: "iterations c (apiKey cr) ?n ?tr1 = (Inr out, tr')" by blast
  have "execute c tr0 = (Inr [out], tr')" using execute_iterations[OF creds] it by simp
  moreover have "length out = ?n" by (rule iterations_length[OF it])
  moreover have "\<forall>j<?n. \<exists>trj. iterations c (apiKey cr) j ?tr1 = (Inr (take j out), trj)
          \<and> out ! j = (case try_body c (apiKey cr) j trj of
                         (Inr r, tr2) \<Rightarrow> r | (Inl e, tr2) \<Rightarrow> error_record e j)"
    using iterations_nth[OF it] by blast
  ultimately show ?thesis by blast
qed

text \<open>
  Claim C2. Continue-on-fail is active and the processing of item \<open>k\<close> fails with \<open>e\<close>:
  the batch still returns one record per item, the records of the earlier items are
  unchanged, the record at index \<open>k\<close> is \<open>{json: {error: message}, pairedItem: {item: k}}\<close>
  with the failure's message (or the fixed text for a thrown value that is no \<open>Error\<close>),
  and the loop goes on to item \<open>k + 1\<close> with that one record added.
\<close>

theorem continue_on_fail_record:
  assumes cof: "continueOnFail c"
    and creds: "getCredentials c (tr0 @ [CallGetInputData]) (js ''openRouterApi'') = Inr cr"
    and k: "k < length (getInputData c)"
    and reach: "iterations c (apiKey cr) k
        (tr0 @ [CallGetInputData, CallGetCredentials (js ''openRouterApi'')]) = (Inr rd, tr)"
    and fails: "try_body c (apiKey cr) k tr = (Inl e, tr')"
  shows "\<exists>out trf. execute c tr0 = (Inr [out], trf)
     \<and> length out = length (getInputData c)
     \<and> take k out = rd
     \<and> out ! k = \<lparr>json = JObj [(js ''error'',
                     JStr (case Error_message e of
                             Some m \<Rightarrow> m | None \<Rightarrow> js ''Unknown error occurred''))],
                  pairedItem = Some \<lparr>item = k\<rparr>\<rparr>
     \<and> iterations c (apiKey cr) (Suc k)
          (tr0 @ [CallGetInputData, CallGetCredentials (js ''openRouterApi'')])
        = (Inr (rd @ [out ! k]), tr' @ [CallContinueOnFail])"
proof -
  let ?tr1 = "tr0 @ [CallGetInputData, CallGetCredentials (js ''openRouterApi'')]"
  let ?n = "length (getInputData c)"
  have "\<forall>j<?n. continueOnFail c \<or>
       (\<forall>rd trj. iterations c (apiKey cr) j ?tr1 = (Inr rd, trj) \<longrightarrow>
          (\<exists>r tr2. try_body c (apiKey cr) j trj = (Inr r, tr2)))"
    using cof by simp
  from iterations_all_reached[OF this] obtain out trf where
    it: "iterations c (apiKey cr) ?n ?tr1 = (Inr out, trf)" by blast
  have ex: "execute c tr0 = (Inr [out], trf)" using execute_iterations[OF creds] it by simp
  have len: "length out = ?n" by (rule iterations_length[OF it])
  from iterations_nth[OF it k] reach fails
  have tk: "take k out = rd" and nk: "out ! k = error_record e k" by auto
  have step: "iterations c (apiKey cr) (Suc k) ?tr1 = (Inr (rd @ [error_record e k]), tr' @ [CallContinueOnFail])"
    using reach fails cof by (simp add: bindIO_def iteration_cases)
  show ?thesis using ex len tk nk step by (simp add: error_record_def)
qed

lemma iterations_Inl_mono:
  "iterations c key k tr = (Inl e, tr') \<Longrightarrow> k \<le> n \<Longrightarrow> iterations c key n tr = (Inl e, tr')"
  by (induction n) (auto simp: bindIO_def le_Suc_eq)

text \<open>
  Claim C3. Continue-on-fail is inactive and the processing of item \<open>k\<close> fails with \<open>e\<close>:
  \<open>execute\<close> throws \<open>e\<close> to its caller and returns no records. The log ends with the
  calls of item \<open>k\<close> and the question whether to continue: no parameter of a later item
  is read.
\<close>

theorem abort_without_continue_on_fail:
  assumes ncof: "\<not> continueOnFail c"
    and creds: "getCredentials c (tr0 @ [CallGetInputData]) (js ''openRouterApi'') = Inr cr"
    and k: "k < length (getInputData c)"
    and reach: "iterations c (apiKey cr) k
        (tr0 @ [CallGetInputData, CallGetCredentials (js ''openRouterApi'')]) = (Inr rd, tr)"
    and fails: "try_body c (apiKey cr) k tr = (Inl e, tr')"
  shows "execute c tr0 = (Inl e, tr' @ [CallContinueOnFail])
     \<and> (\<exists>evs. tr' @ [CallContinueOnFail] = tr0 @ evs \<and> list_all (item_at_most k) evs)"
proof -
  let ?tr1 = "tr0 @ [CallGetInputData, CallGetCredentials (js ''openRouterApi'')]"
  let ?n = "length (getInputData c)"
  have step: "iterations c (apiKey cr) (Suc k) ?tr1 = (Inl e, tr' @ [CallContinueOnFail])"
    using reach fails ncof by (simp add: bindIO_def iteration_cases)
  from iterations_Inl_mono[OF step, of ?n] k
  have "iterations c (apiKey cr) ?n ?tr1 = (Inl e, tr' @ [CallContinueOnFail])" by simp
  hence ex: "execute c tr0 = (Inl e, tr' @ [CallContinueOnFail])"
    using execute_iterations[OF creds] by simp
  have "adds (item_at_most k) (iterations c (apiKey cr) (Suc k))"
    by (rule adds_iterations) auto
  from addsD[OF this step] obtain evs where
    evs: "tr' @ [CallContinueOnFail] = ?tr1 @ evs" "list_all (item_at_most k) evs" by blast
  hence "tr' @ [CallContinueOnFail] = tr0 @ ([CallGetInputData, CallGetCredentials (js ''openRouterApi'')] @ evs)"
    "list_all (item_at_most k) ([CallGetInputData, CallGetCredentials (js ''openRouterApi'')] @ evs)"
    by simp_all
  with ex show ?thesis by blast
qed


section \<open>The example batch\<close>

lemmas demo_defs = demo_context_def demo_params_def demo_messages_def demo_request_def
  demo_parse_def param_log_def

lemma demo_read_params:
  "read_params (demo_context\<lparr>continueOnFail := b\<rparr>) i tr = (Inr (demo_params i), tr @ param_log i)"
  by (simp add: read_params_def io_defs demo_context_def demo_params_def param_log_def)

lemma demo_try_body_0:
  "try_body (demo_context\<lparr>continueOnFail := b\<rparr>) (js ''sk-1'') 0 tr =
     (Inr \<lparr>json = JObj [(js ''id'', JStr (js ''x''))], pairedItem = None\<rparr>,
      tr @ param_log 0 @ [CallRequest (JObj (requestOptions (js ''sk-1'') (demo_params 0)))])"
  by (simp add: try_body_def demo_read_params chatCompletion_def io_defs)
     (simp add: demo_defs project_message_def requestOptions_def body_def obj_get_def io_defs)

lemma demo_try_body_1:
  "try_body (demo_context\<lparr>continueOnFail := b\<rparr>) (js ''sk-1'') 1 tr =
     (Inl (NodeOperationError (JObj [(js ''name'', JStr (js ''OpenRouter''))])
             (js ''At least one message is required'')),
      tr @ param_log 1 @ [CallGetNode])"
  by (simp add: try_body_def demo_read_params chatCompletion_def io_defs)
     (simp add: demo_defs io_defs)

lemma demo_try_body_2:
  "try_body (demo_context\<lparr>continueOnFail := b\<rparr>) (js ''sk-1'') 2 tr =
     (Inr \<lparr>json = JObj [(js ''streamedResponse'',
               JArr [JObj [(js ''a'', JNum 1)], JObj [(js ''a'', JNum 2)]])],
            pairedItem = None\<rparr>,
      tr @ param_log 2 @ [CallRequest (JObj (streamOptions (js ''sk-1'') (demo_params 2)))])"
  by (simp add: try_body_def demo_read_params chatCompletion_def io_defs)
     (simp add: demo_defs project_message_def requestOptions_def streamOptions_def body_def obj_get_def
        parsedChunks_def chunks_example parse_chunk_def replace_example io_defs)

lemma demo_context_cof: "demo_context\<lparr>continueOnFail := True\<rparr> = demo_context"
  by (simp add: demo_context_def)

theorem one_record_per_item_witness:
  "getCredentials demo_context ([] @ [CallGetInputData]) (js ''openRouterApi'')
     = Inr \<lparr>apiKey = js ''sk-1''\<rparr>
   \<and> continueOnFail demo_context
   \<and> (\<exists>out tr'. execute demo_context [] = (Inr [out], tr')
        \<and> length out = 3
        \<and> out ! 0 = \<lparr>json = JObj [(js ''id'', JStr (js ''x''))], pairedItem = None\<rparr>
        \<and> out ! 1 = error_record (NodeOperationError (JObj [(js ''name'', JStr (js ''OpenRouter''))])
             (js ''At least one message is required'')) 1
        \<and> out ! 2 = \<lparr>json = JObj [(js ''streamedResponse'',
               JArr [JObj [(js ''a'', JNum 1)], JObj [(js ''a'', JNum 2)]])],
            pairedItem = None\<rparr>)"
proof -
  have creds: "getCredentials demo_context ([] @ [CallGetInputData]) (js ''openRouterApi'')
     = Inr \<lparr>apiKey = js ''sk-1''\<rparr>"
    by (simp add: demo_context_def)
  have cof: "continueOnFail demo_context" by (simp add: demo_context_def)
  have n: "length (getInputData demo_context) = 3" by (simp add: demo_context_def)
  from one_record_per_item[OF creds] cof obtain out tr' where
    ex: "execute demo_context [] = (Inr [out], tr')"
    and len: "length out = length (getInputData demo_context)"
    and each: "\<forall>j<length (getInputData demo_context). \<exists>trj.
          iterations demo_context (apiKey \<lparr>apiKey = js ''sk-1''\<rparr>) j
            ([] @ [CallGetInputData, CallGetCredentials (js ''openRouterApi'')])
            = (Inr (take j out), trj)
          \<and> out ! j = (case try_body demo_context (apiKey \<lparr>apiKey = js ''sk-1''\<rparr>) j trj of
                         (Inr r, tr2) \<Rightarrow> r | (Inl e, tr2) \<Rightarrow> error_record e j)"
    by blast
  have t0: "\<And>tr. try_body demo_context (js ''sk-1'') 0 tr =
     (Inr \<lparr>json = JObj [(js ''id'', JStr (js ''x''))], pairedItem = None\<rparr>,
      tr @ param_log 0 @ [CallRequest (JObj (requestOptions (js ''sk-1'') (demo_params 0)))])"
    using demo_try_body_0[of True] by (simp add: demo_context_cof)
  have t1: "\<And>tr. try_body demo_context (js ''sk-1'') 1 tr =
     (Inl (NodeOperationError (JObj [(js ''name'', JStr (js ''OpenRouter''))])
             (js ''At least one message is required'')),
      tr @ param_log 1 @ [CallGetNode])"
    using demo_try_body_1[of True] by (simp add: demo_context_cof)
  have t2: "\<And>tr. try_body demo_context (js ''sk-1'') 2 tr =
     (Inr \<lparr>json = JObj [(js ''streamedResponse'',
               JArr [JObj [(js ''a'', JNum 1)], JObj [(js ''a'', JNum 2)]])],
            pairedItem = None\<rparr>,
      tr @ param_log 2 @ [CallRequest (JObj (streamOptions (js ''sk-1'') (demo_params 2)))])"
    using demo_try_body_2[of True] by (simp add: demo_context_cof)
  from each n have "\<exists>trj. out ! 0 = (case try_body demo_context (js ''sk-1'') 0 trj of
                         (Inr r, tr2) \<Rightarrow> r | (Inl e, tr2) \<Rightarrow> error_record e 0)"
    by (auto dest!: spec[of _ 0])
  then obtain trj0 where "out ! 0 = (case try_body demo_context (js ''sk-1'') 0 trj0 of
                         (Inr r, tr2) \<Rightarrow> r | (Inl e, tr2) \<Rightarrow> error_record e 0)" ..
  hence o0: "out ! 0 = \<lparr>json = JObj [(js ''id'', JStr (js ''x''))], pairedItem = None\<rparr>"
    by (simp only: t0 prod.case sum.case)
  from each n have "\<exists>trj. out ! 1 = (case try_body demo_context (js ''sk-1'') 1 trj of
                         (Inr r, tr2) \<Rightarrow> r | (Inl e, tr2) \<Rightarrow> error_record e 1)"
    by (auto dest!: spec[of _ 1])
  then obtain trj1 where "out ! 1 = (case try_body demo_context (js ''sk-1'') 1 trj1 of
                         (Inr r, tr2) \<Rightarrow> r | (Inl e, tr2) \<Rightarrow> error_record e 1)" ..
  hence o1: "out ! 1 = error_record (NodeOperationError (JObj [(js ''name'', JStr (js ''OpenRouter''))])
             (js ''At least one message is required'')) 1"
    by (simp only: t1 prod.case sum.case)
  from each n have "\<exists>trj. out ! 2 = (case try_body demo_context (js ''sk-1'') 2 trj of
                         (Inr r, tr2) \<Rightarrow> r | (Inl e, tr2) \<Rightarrow> error_record e 2)"
    by (auto dest!: spec[of _ 2])
  then obtain trj2 where "out ! 2 = (case try_body demo_context (js ''sk-1'') 2 trj2 of
                         (Inr r, tr2) \<Rightarrow> r | (Inl e, tr2) \<Rightarrow> error_record e 2)" ..
  hence o2: "out ! 2 = \<lparr>json = JObj [(js ''streamedResponse'',
               JArr [JObj [(js ''a'', JNum 1)], JObj [(js ''a'', JNum 2)]])],
            pairedItem = None\<rparr>"
    by (simp only: t2 prod.case sum.case)
  from ex len n o0 o1 o2 creds cof show ?thesis by auto
qed


lemma demo_reach_1:
  "iterations (demo_context\<lparr>continueOnFail := b\<rparr>) (js ''sk-1'') 1 tr =
     (Inr [\<lparr>json = JObj [(js ''id'', JStr (js ''x''))], pairedItem = None\<rparr>],
      tr @ param_log 0 @ [CallRequest (JObj (requestOptions (js ''sk-1'') (demo_params 0)))])"
  by (simp add: bindIO_def returnIO_def iteration_cases demo_try_body_0)

theorem continue_on_fail_record_witness:
  "continueOnFail demo_context
   \<and> 1 < length (getInputData demo_context)
   \<and> (\<exists>out trf. execute demo_context [] = (Inr [out], trf)
        \<and> length out = 3
        \<and> take 1 out = [\<lparr>json = JObj [(js ''id'', JStr (js ''x''))], pairedItem = None\<rparr>]
        \<and> out ! 1 = \<lparr>json = JObj [(js ''error'', JStr (js ''At least one message is required''))],
                     pairedItem = Some \<lparr>item = 1\<rparr>\<rparr>)"
proof -
  let ?tr1 = "[] @ [CallGetInputData, CallGetCredentials (js ''openRouterApi'')]"
  let ?tr = "?tr1 @ param_log 0 @ [CallRequest (JObj (requestOptions (js ''sk-1'') (demo_params 0)))]"
  have cof: "continueOnFail demo_context" by (simp add: demo_context_def)
  have creds: "getCredentials demo_context ([] @ [CallGetInputData]) (js ''openRouterApi'')
     = Inr \<lparr>apiKey = js ''sk-1''\<rparr>"
    by (simp add: demo_context_def)
  have k: "1 < length (getInputData demo_context)" by (simp add: demo_context_def)
  have reach: "iterations demo_context (apiKey \<lparr>apiKey = js ''sk-1''\<rparr>) 1 ?tr1 =
     (Inr [\<lparr>json = JObj [(js ''id'', JStr (js ''x''))], pairedItem = None\<rparr>], ?tr)"
    using demo_reach_1[of True ?tr1] by (simp only: demo_context_cof credentials.simps)
  have fails: "try_body demo_context (apiKey \<lparr>apiKey = js ''sk-1''\<rparr>) 1 ?tr =
     (Inl (NodeOperationError (JObj [(js ''name'', JStr (js ''OpenRouter''))])
             (js ''At least one message is required'')),
      ?tr @ param_log 1 @ [CallGetNode])"
    using demo_try_body_1[of True ?tr] by (simp only: demo_context_cof credentials.simps)
  from continue_on_fail_record[OF cof creds k reach fails] 
  have "\<exists>out trf. execute demo_context [] = (Inr [out], trf)
        \<and> length out = 3
        \<and> take 1 out = [\<lparr>json = JObj [(js ''id'', JStr (js ''x''))], pairedItem = None\<rparr>]
        \<and> out ! 1 = \<lparr>json = JObj [(js ''error'', JStr (js ''At least one message is required''))],
                     pairedItem = Some \<lparr>item = 1\<rparr>\<rparr>"
    by (auto simp: demo_context_def)
  with cof k show ?thesis by blast
qed

theorem abort_without_continue_on_fail_witness:
  "\<not> continueOnFail (demo_context\<lparr>continueOnFail := False\<rparr>)
   \<and> 1 < length (getInputData (demo_context\<lparr>continueOnFail := False\<rparr>))
   \<and> fst (execute (demo_context\<lparr>continueOnFail := False\<rparr>) []) =
       Inl (NodeOperationError (JObj [(js ''name'', JStr (js ''OpenRouter''))])
             (js ''At least one message is required''))
   \<and> list_all (item_at_most 1) (snd (execute (demo_context\<lparr>continueOnFail := False\<rparr>) []))"
proof -
  let ?c = "demo_context\<lparr>continueOnFail := False\<rparr>"
  let ?tr1 = "[] @ [CallGetInputData, CallGetCredentials (js ''openRouterApi'')]"
  let ?tr = "?tr1 @ param_log 0 @ [CallRequest (JObj (requestOptions (js ''sk-1'') (demo_params 0)))]"
  have ncof: "\<not> continueOnFail ?c" by simp
  have creds: "getCredentials ?c ([] @ [CallGetInputData]) (js ''openRouterApi'')
     = Inr \<lparr>apiKey = js ''sk-1''\<rparr>"
    by (simp add: demo_context_def)
  have k: "1 < length (getInputData ?c)" by (simp add: demo_context_def)
  have reach: "iterations ?c (apiKey \<lparr>apiKey = js ''sk-1''\<rparr>) 1 ?tr1 =
     (Inr [\<lparr>json = JObj [(js ''id'', JStr (js ''x''))], pairedItem = None\<rparr>], ?tr)"
    using demo_reach_1[of False ?tr1] by (simp only: credentials.simps)
  have fails: "try_body ?c (apiKey \<lparr>apiKey = js ''sk-1''\<rparr>) 1 ?tr =
     (Inl (NodeOperationError (JObj [(js ''name'', JStr (js ''OpenRouter''))])
             (js ''At least one message is required'')),
      ?tr @ param_log 1 @ [CallGetNode])"
    using demo_try_body_1[of False ?tr] by (simp only: credentials.simps)
  from abort_without_continue_on_fail[OF ncof creds k reach fails]
  have "fst (execute ?c []) =
       Inl (NodeOperationError (JObj [(js ''name'', JStr (js ''OpenRouter''))])
             (js ''At least one message is required''))"
    and "list_all (item_at_most 1) (snd (execute ?c []))"
    by auto
  with ncof k show ?thesis by blast
qed


section \<open>The request payload\<close>

lemma try_body_request:
  assumes params: "read_params c i tr = (Inr p, tr1)"
    and op: "operation p = js ''chatCompletion''"
    and ne: "messagesInput p \<noteq> []"
  shows "snd (try_body c key i tr) =
     tr1 @ [CallRequest (JObj (if stream p then streamOptions key p else requestOptions key p))]"
  using assms
  by (simp add: try_body_def chatCompletion_def io_defs split: prod.splits sum.splits)

lemma options_body:
  "obj_get (requestOptions key p) (js ''body'') = JObj (body p)"
  "obj_get (streamOptions key p) (js ''body'') = JObj (body p)"
  by (simp_all add: requestOptions_def streamOptions_def obj_get_def)

lemma body_keys:
  "map fst (body p) =
     [js ''model'', js ''messages'', js ''max_tokens'', js ''temperature'', js ''top_p'',
      js ''frequency_penalty'', js ''presence_penalty'', js ''stream'']"
  by (simp add: body_def)

lemma body_messages: "obj_get (body p) (js ''messages'') = JArr (map JObj (messagesInput p))"
  by (simp add: body_def obj_get_def)

text \<open>
  Claim C4. An item whose parameters are read without failure, whose operation is
  \<open>chatCompletion\<close> and whose configured message list \<open>ms\<close> is not empty: the item
  issues one request, the \<open>body\<close> of the request options is the payload, the payload
  has exactly the eight fields \<open>model\<close>, \<open>messages\<close>, \<open>max_tokens\<close>, \<open>temperature\<close>,
  \<open>top_p\<close>, \<open>frequency_penalty\<close>, \<open>presence_penalty\<close> and \<open>stream\<close>, and its
  \<open>messages\<close> field lists, in the order of \<open>ms\<close>, the role and the content of each
  configured message.
\<close>

theorem payload_fields:
  assumes params: "read_params c i tr = (Inr p, tr1)"
    and op: "operation p = js ''chatCompletion''"
    and msgs: "getNodeParameter_collection c
        (tr @ [CallGetNodeParameter (js ''operation'') i, CallGetNodeParameter (js ''model'') i])
        (js ''messages.messagesValues'') i = Inr ms"
    and ne: "ms \<noteq> []"
  shows "\<exists>ro. snd (try_body c key i tr) = tr1 @ [CallRequest (JObj ro)]
     \<and> obj_get ro (js ''body'') = JObj (body p)
     \<and> map fst (body p) =
         [js ''model'', js ''messages'', js ''max_tokens'', js ''temperature'', js ''top_p'',
          js ''frequency_penalty'', js ''presence_penalty'', js ''stream'']
     \<and> obj_get (body p) (js ''messages'') =
         JArr (map (\<lambda>m. JObj [(js ''role'', obj_get m (js ''role'')),
                                (js ''content'', obj_get m (js ''content''))]) ms)"
proof -
  from read_params_messages[OF params] msgs
  have mi: "messagesInput p = map project_message ms" by auto
  hence ne': "messagesInput p \<noteq> []" using ne by simp
  let ?ro = "if stream p then streamOptions key p else requestOptions key p"
  have "snd (try_body c key i tr) = tr1 @ [CallRequest (JObj ?ro)]"
    by (rule try_body_request[OF params op ne'])
  moreover have "obj_get ?ro (js ''body'') = JObj (body p)" by (simp add: options_body)
  moreover have "obj_get (body p) (js ''messages'') =
         JArr (map (\<lambda>m. JObj [(js ''role'', obj_get m (js ''role'')),
                                (js ''content'', obj_get m (js ''content''))]) ms)"
    by (simp add: body_messages mi project_message_def)
  ultimately show ?thesis using body_keys by blast
qed

theorem payload_fields_witness:
  "read_params demo_context 0 [] = (Inr (demo_params 0), param_log 0)
   \<and> operation (demo_params 0) = js ''chatCompletion''
   \<and> getNodeParameter_collection demo_context
        ([] @ [CallGetNodeParameter (js ''operation'') 0, CallGetNodeParameter (js ''model'') 0])
        (js ''messages.messagesValues'') 0 = Inr (demo_messages 0)
   \<and> demo_messages 0 \<noteq> []
   \<and> (\<exists>ro. snd (try_body demo_context (js ''sk-1'') 0 []) = param_log 0 @ [CallRequest (JObj ro)]
        \<and> obj_get ro (js ''body'') = JObj (body (demo_params 0))
        \<and> obj_get (body (demo_params 0)) (js ''messages'') =
            JArr [JObj [(js ''role'', JStr (js ''user'')), (js ''content'', JStr (js ''Hello''))],
                  JObj [(js ''role'', JStr (js ''assistant'')), (js ''content'', JStr (js ''Hi''))]])"
proof -
  have h1: "read_params demo_context 0 [] = (Inr (demo_params 0), param_log 0)"
    using demo_read_params[of True 0 "[]"] by (simp add: demo_context_cof)
  have h2: "operation (demo_params 0) = js ''chatCompletion''" by (simp add: demo_params_def)
  have h3: "getNodeParameter_collection demo_context
        ([] @ [CallGetNodeParameter (js ''operation'') 0, CallGetNodeParameter (js ''model'') 0])
        (js ''messages.messagesValues'') 0 = Inr (demo_messages 0)"
    by (simp add: demo_context_def)
  have h4: "demo_messages 0 \<noteq> []" by (simp add: demo_messages_def)
  from payload_fields[OF h1 h2 h3 h4, of "js ''sk-1''"]
  have "\<exists>ro. snd (try_body demo_context (js ''sk-1'') 0 []) = param_log 0 @ [CallRequest (JObj ro)]
        \<and> obj_get ro (js ''body'') = JObj (body (demo_params 0))
        \<and> obj_get (body (demo_params 0)) (js ''messages'') =
            JArr [JObj [(js ''role'', JStr (js ''user'')), (js ''content'', JStr (js ''Hello''))],
                  JObj [(js ''role'', JStr (js ''assistant'')), (js ''content'', JStr (js ''Hi''))]]"
    by (auto simp: demo_messages_def obj_get_def)
  with h1 h2 h3 h4 show ?thesis by blast
qed

text \<open>
  Claim C10. Each configured message is projected onto the two keys \<open>role\<close> and
  \<open>content\<close> before the payload is built. The \<open>messages\<close> field of the payload has one
  entry per configured message; the entry at index \<open>j\<close> is the object made of the role and
  the content of the configured message at index \<open>j\<close> and of nothing else: it has exactly
  the keys \<open>role\<close> and \<open>content\<close>, and a lookup of any other key in it finds nothing.
  When the item issues its request (the operation is \<open>chatCompletion\<close> and the list is
  not empty), these entries are the \<open>messages\<close> of the \<open>body\<close> of the request options that
  are sent.
\<close>

theorem message_projection:
  assumes params: "read_params c i tr = (Inr p, tr1)"
    and msgs: "getNodeParameter_collection c
        (tr @ [CallGetNodeParameter (js ''operation'') i, CallGetNodeParameter (js ''model'') i])
        (js ''messages.messagesValues'') i = Inr ms"
  shows "\<exists>entries. obj_get (body p) (js ''messages'') = JArr (map JObj entries)
     \<and> length entries = length ms
     \<and> (\<forall>j<length ms.
           entries ! j = [(js ''role'', obj_get (ms ! j) (js ''role'')),
                          (js ''content'', obj_get (ms ! j) (js ''content''))]
         \<and> map fst (entries ! j) = [js ''role'', js ''content'']
         \<and> (\<forall>k. k \<noteq> js ''role'' \<and> k \<noteq> js ''content'' \<longrightarrow> map_of (entries ! j) k = None))
     \<and> (operation p = js ''chatCompletion'' \<and> ms \<noteq> [] \<longrightarrow>
          (\<exists>ro payload. snd (try_body c key i tr) = tr1 @ [CallRequest (JObj ro)]
             \<and> obj_get ro (js ''body'') = JObj payload
             \<and> obj_get payload (js ''messages'') = JArr (map JObj entries)))"
proof -
  let ?entries = "map project_message ms"
  from read_params_messages[OF params] msgs
  have mi: "messagesInput p = ?entries" by auto
  have a: "obj_get (body p) (js ''messages'') = JArr (map JObj ?entries)"
    by (simp add: body_messages mi)
  have b: "length ?entries = length ms" by simp
  have c: "\<forall>j<length ms.
           ?entries ! j = [(js ''role'', obj_get (ms ! j) (js ''role'')),
                           (js ''content'', obj_get (ms ! j) (js ''content''))]
         \<and> map fst (?entries ! j) = [js ''role'', js ''content'']
         \<and> (\<forall>k. k \<noteq> js ''role'' \<and> k \<noteq> js ''content'' \<longrightarrow>
               map_of (?entries ! j) k = None)"
    by (simp add: project_message_def)
  have d: "operation p = js ''chatCompletion'' \<and> ms \<noteq> [] \<longrightarrow>
          (\<exists>ro payload. snd (try_body c key i tr) = tr1 @ [CallRequest (JObj ro)]
             \<and> obj_get ro (js ''body'') = JObj payload
             \<and> obj_get payload (js ''messages'') = JArr (map JObj ?entries))"
  proof
    assume h: "operation p = js ''chatCompletion'' \<and> ms \<noteq> []"
    hence op: "operation p = js ''chatCompletion''" and ne: "messagesInput p \<noteq> []"
      by (simp_all add: mi)
    let ?ro = "if stream p then streamOptions key p else requestOptions key p"
    have "snd (try_body c key i tr) = tr1 @ [CallRequest (JObj ?ro)]"
      by (rule try_body_request[OF params op ne])
    moreover have "obj_get ?ro (js ''body'') = JObj (body p)" by (simp add: options_body)
    ultimately show "\<exists>ro payload. snd (try_body c key i tr) = tr1 @ [CallRequest (JObj ro)]
             \<and> obj_get ro (js ''body'') = JObj payload
             \<and> obj_get payload (js ''messages'') = JArr (map JObj ?entries)"
      using a by (intro exI[of _ ?ro] exI[of _ "body p"] conjI)
  qed
  from a b c d show ?thesis by (intro exI[of _ ?entries] conjI)
qed

theorem message_projection_witness:
  "read_params demo_context 0 [] = (Inr (demo_params 0), param_log 0)
   \<and> getNodeParameter_collection demo_context
        ([] @ [CallGetNodeParameter (js ''operation'') 0, CallGetNodeParameter (js ''model'') 0])
        (js ''messages.messagesValues'') 0 = Inr (demo_messages 0)
   \<and> map_of (demo_messages 0 ! 0) (js ''name'') = Some (JStr (js ''Ada''))
   \<and> operation (demo_params 0) = js ''chatCompletion'' \<and> demo_messages 0 \<noteq> []
   \<and> (\<exists>entries ro payload.
          entries ! 0 = [(js ''role'', JStr (js ''user'')), (js ''content'', JStr (js ''Hello''))]
        \<and> entries ! 1 = [(js ''role'', JStr (js ''assistant'')), (js ''content'', JStr (js ''Hi''))]
        \<and> length entries = 2
        \<and> map_of (entries ! 0) (js ''name'') = None
        \<and> obj_get (body (demo_params 0)) (js ''messages'') = JArr (map JObj entries)
        \<and> snd (try_body demo_context (js ''sk-1'') 0 []) = param_log 0 @ [CallRequest (JObj ro)]
        \<and> obj_get ro (js ''body'') = JObj payload
        \<and> obj_get payload (js ''messages'') = JArr (map JObj entries))"
proof -
  have h1: "read_params demo_context 0 [] = (Inr (demo_params 0), param_log 0)"
    using demo_read_params[of True 0 "[]"] by (simp add: demo_context_cof)
  have h3: "getNodeParameter_collection demo_context
        ([] @ [CallGetNodeParameter (js ''operation'') 0, CallGetNodeParameter (js ''model'') 0])
        (js ''messages.messagesValues'') 0 = Inr (demo_messages 0)"
    by (simp add: demo_context_def)
  have h4: "map_of (demo_messages 0 ! 0) (js ''name'') = Some (JStr (js ''Ada''))"
    by (simp add: demo_messages_def)
  have h5: "operation (demo_params 0) = js ''chatCompletion'' \<and> demo_messages 0 \<noteq> []"
    by (simp add: demo_params_def demo_messages_def)
  have len: "length (demo_messages 0) = 2" by (simp add: demo_messages_def)
  have m0: "[(js ''role'', obj_get (demo_messages 0 ! 0) (js ''role'')),
             (js ''content'', obj_get (demo_messages 0 ! 0) (js ''content''))]
          = [(js ''role'', JStr (js ''user'')), (js ''content'', JStr (js ''Hello''))]"
    by (simp add: demo_messages_def obj_get_def)
  have m1: "[(js ''role'', obj_get (demo_messages 0 ! 1) (js ''role'')),
             (js ''content'', obj_get (demo_messages 0 ! 1) (js ''content''))]
          = [(js ''role'', JStr (js ''assistant'')), (js ''content'', JStr (js ''Hi''))]"
    by (simp add: demo_messages_def obj_get_def)
  from message_projection[OF h1 h3, of "js ''sk-1''"] obtain entries where
    e1: "obj_get (body (demo_params 0)) (js ''messages'') = JArr (map JObj entries)"
    and e2: "length entries = length (demo_messages 0)"
    and e3: "\<forall>j<length (demo_messages 0).
           entries ! j = [(js ''role'', obj_get (demo_messages 0 ! j) (js ''role'')),
                          (js ''content'', obj_get (demo_messages 0 ! j) (js ''content''))]
         \<and> map fst (entries ! j) = [js ''role'', js ''content'']
         \<and> (\<forall>k. k \<noteq> js ''role'' \<and> k \<noteq> js ''content'' \<longrightarrow> map_of (entries ! j) k = None)"
    and e4: "operation (demo_params 0) = js ''chatCompletion'' \<and> demo_messages 0 \<noteq> [] \<longrightarrow>
          (\<exists>ro payload. snd (try_body demo_context (js ''sk-1'') 0 []) =
               param_log 0 @ [CallRequest (JObj ro)]
             \<and> obj_get ro (js ''body'') = JObj payload
             \<and> obj_get payload (js ''messages'') = JArr (map JObj entries))"
    by (elim exE conjE)
  from e4 h5 obtain ro payload where
    r: "snd (try_body demo_context (js ''sk-1'') 0 []) = param_log 0 @ [CallRequest (JObj ro)]"
      "obj_get ro (js ''body'') = JObj payload"
      "obj_get payload (js ''messages'') = JArr (map JObj entries)"
    by (elim impE exE conjE) (rule h5)
  have l0: "0 < length (demo_messages 0)" and l1: "1 < length (demo_messages 0)"
    by (simp_all add: len)
  from spec[OF e3, of 0] l0 have f0:
    "entries ! 0 = [(js ''role'', obj_get (demo_messages 0 ! 0) (js ''role'')),
                    (js ''content'', obj_get (demo_messages 0 ! 0) (js ''content''))]
     \<and> map fst (entries ! 0) = [js ''role'', js ''content'']
     \<and> (\<forall>k. k \<noteq> js ''role'' \<and> k \<noteq> js ''content'' \<longrightarrow> map_of (entries ! 0) k = None)"
    by (rule mp)
  from spec[OF e3, of 1] l1 have f1:
    "entries ! 1 = [(js ''role'', obj_get (demo_messages 0 ! 1) (js ''role'')),
                    (js ''content'', obj_get (demo_messages 0 ! 1) (js ''content''))]
     \<and> map fst (entries ! 1) = [js ''role'', js ''content'']
     \<and> (\<forall>k. k \<noteq> js ''role'' \<and> k \<noteq> js ''content'' \<longrightarrow> map_of (entries ! 1) k = None)"
    by (rule mp)
  have g0: "entries ! 0 = [(js ''role'', JStr (js ''user'')), (js ''content'', JStr (js ''Hello''))]"
    using f0 by (simp only: m0)
  have g1: "entries ! 1 = [(js ''role'', JStr (js ''assistant'')), (js ''content'', JStr (js ''Hi''))]"
    using f1 by (simp only: m1)
  have g2: "length entries = 2" using e2 by (simp only: len)
  have g3: "map_of (entries ! 0) (js ''name'') = None" by (simp add: g0)
  have "\<exists>entries ro payload.
          entries ! 0 = [(js ''role'', JStr (js ''user'')), (js ''content'', JStr (js ''Hello''))]
        \<and> entries ! 1 = [(js ''role'', JStr (js ''assistant'')), (js ''content'', JStr (js ''Hi''))]
        \<and> length entries = 2
        \<and> map_of (entries ! 0) (js ''name'') = None
        \<and> obj_get (body (demo_params 0)) (js ''messages'') = JArr (map JObj entries)
        \<and> snd (try_body demo_context (js ''sk-1'') 0 []) = param_log 0 @ [CallRequest (JObj ro)]
        \<and> obj_get ro (js ''body'') = JObj payload
        \<and> obj_get payload (js ''messages'') = JArr (map JObj entries)"
    using g0 g1 g2 g3 e1 r by (intro exI[of _ entries] exI[of _ ro] exI[of _ payload] conjI)
  with h1 h3 h4 conjunct1[OF h5] conjunct2[OF h5] show ?thesis by (intro conjI)
qed

lemma read_params_no_request:
  assumes "read_params c i tr = (Inr p, tr1)"
  shows "filter is_request tr1 = filter is_request tr"
  using read_params_log[OF assms] by (simp add: param_log_def)

text \<open>
  Claim C5. An item whose parameters are read without failure. If its operation is
  \<open>chatCompletion\<close> and its configured message list is empty, its processing fails
  with the error \<open>At least one message is required\<close>. If its operation is any other
  value, its processing fails with an error that names the operation. In both cases the
  item adds no request to the log.
\<close>

theorem invalid_item_fails_without_request:
  assumes params: "read_params c i tr = (Inr p, tr1)"
    and msgs: "getNodeParameter_collection c
        (tr @ [CallGetNodeParameter (js ''operation'') i, CallGetNodeParameter (js ''model'') i])
        (js ''messages.messagesValues'') i = Inr ms"
  shows \<open>(operation p = js ''chatCompletion'' \<and> ms = [] \<longrightarrow>
            try_body c key i tr =
              (Inl (NodeOperationError (getNode c) (js ''At least one message is required'')),
               tr1 @ [CallGetNode]))
       \<and> (operation p \<noteq> js ''chatCompletion'' \<longrightarrow>
            try_body c key i tr =
              (Inl (NodeOperationError (getNode c)
                      (js ''The operation "'' @ operation p @ js ''" is not supported'')),
               tr1 @ [CallGetNode]))
       \<and> filter is_request (tr1 @ [CallGetNode]) = filter is_request tr\<close>
proof -
  from read_params_messages[OF params] msgs
  have mi: "messagesInput p = map project_message ms" by auto
  have a: "try_body c key i tr =
              (Inl (NodeOperationError (getNode c) (js ''At least one message is required'')),
               tr1 @ [CallGetNode])"
    if "operation p = js ''chatCompletion''" "ms = []"
    using that params mi by (simp add: try_body_def chatCompletion_def io_defs)
  have b: \<open>try_body c key i tr =
              (Inl (NodeOperationError (getNode c)
                      (js ''The operation "'' @ operation p @ js ''" is not supported'')),
               tr1 @ [CallGetNode])\<close>
    if "operation p \<noteq> js ''chatCompletion''"
    using that params by (simp add: try_body_def io_defs)
  have "filter is_request (tr1 @ [CallGetNode]) = filter is_request tr"
    using read_params_no_request[OF params] by simp
  with a b show ?thesis by blast
qed

theorem invalid_item_fails_without_request_witness:
  \<open>try_body demo_context (js ''sk-1'') 1 [] =
     (Inl (NodeOperationError (getNode demo_context) (js ''At least one message is required'')),
      param_log 1 @ [CallGetNode])
   \<and> try_body (demo_context\<lparr>getNodeParameter_string := \<lambda>tr n i. Inr (js ''embed'')\<rparr>)
        (js ''sk-1'') 0 [] =
     (Inl (NodeOperationError (getNode demo_context)
             (js ''The operation "'' @ js ''embed'' @ js ''" is not supported'')),
      param_log 0 @ [CallGetNode])
   \<and> filter is_request (param_log 1 @ [CallGetNode]) = filter is_request []\<close>
proof -
  let ?c = "demo_context\<lparr>getNodeParameter_string := \<lambda>tr n i. Inr (js ''embed'')\<rparr>"
  have h1: "read_params demo_context 1 [] = (Inr (demo_params 1), param_log 1)"
    using demo_read_params[of True 1 "[]"] by (simp add: demo_context_cof)
  have h2: "getNodeParameter_collection demo_context
        ([] @ [CallGetNodeParameter (js ''operation'') 1, CallGetNodeParameter (js ''model'') 1])
        (js ''messages.messagesValues'') 1 = Inr []"
    by (simp add: demo_context_def demo_messages_def)
  have o1: "operation (demo_params 1) = js ''chatCompletion''" by (simp add: demo_params_def)
  have g1: "read_params ?c 0 [] =
      (Inr ((demo_params 0)\<lparr>operation := js ''embed'', model := js ''embed''\<rparr>), param_log 0)"
    by (simp add: read_params_def io_defs demo_context_def demo_params_def param_log_def)
  have g2: "getNodeParameter_collection ?c
        ([] @ [CallGetNodeParameter (js ''operation'') 0, CallGetNodeParameter (js ''model'') 0])
        (js ''messages.messagesValues'') 0 = Inr (demo_messages 0)"
    by (simp add: demo_context_def)
  have o2: "operation ((demo_params 0)\<lparr>operation := js ''embed'', model := js ''embed''\<rparr>)
      \<noteq> js ''chatCompletion''" by simp
  have n: "getNode ?c = getNode demo_context" by simp
  from invalid_item_fails_without_request[OF h1 h2, of "js ''sk-1''"] o1
  have a: "try_body demo_context (js ''sk-1'') 1 [] =
     (Inl (NodeOperationError (getNode demo_context) (js ''At least one message is required'')),
      param_log 1 @ [CallGetNode])"
    and c: "filter is_request (param_log 1 @ [CallGetNode]) = filter is_request []"
    by blast+
  from invalid_item_fails_without_request[OF g1 g2, of "js ''sk-1''"] o2
  have b: \<open>try_body ?c (js ''sk-1'') 0 [] =
     (Inl (NodeOperationError (getNode demo_context)
             (js ''The operation "'' @ js ''embed'' @ js ''" is not supported'')),
      param_log 0 @ [CallGetNode])\<close>
    unfolding n by simp
  from a b c show ?thesis by blast
qed

section \<open>The model list\<close>

lemma map_throw_model_option:
  "map_throw (model_option c) (map JObj ds) =
     Inr (map (\<lambda>d. \<lparr>opt_name = obj_get d (js ''id''), opt_value = obj_get d (js ''id''),
                      opt_description = obj_get d (js ''description'')\<rparr>) ds)"
  by (induction ds) (simp_all add: model_option_def)

text \<open>
  Claim C7. A model-list response whose body is an object with an array of model
  descriptors in its \<open>data\<close> field: \<open>getModels\<close> returns one option per descriptor, in
  the order of the array, and the option of a descriptor \<open>{id, description}\<close> is
  \<open>{name: id, value: id, description: description}\<close>. The witness is the response
  \<open>{"data":[{"id":"m1","description":"d1"}]}\<close>.
\<close>

theorem models_options:
  assumes creds: "getCredentials c tr (js ''openRouterApi'') = Inr cr"
    and resp: "request c (tr @ [CallGetCredentials (js ''openRouterApi'')])
                 (JObj (modelsRequestOptions (apiKey cr))) = Inr (JObj kvs)"
    and data: "obj_get kvs (js ''data'') = JArr (map JObj descriptors)"
  shows "getModels c tr =
     (Inr (map (\<lambda>d. \<lparr>opt_name = obj_get d (js ''id''), opt_value = obj_get d (js ''id''),
                       opt_description = obj_get d (js ''description'')\<rparr>) descriptors),
      tr @ [CallGetCredentials (js ''openRouterApi''),
            CallRequest (JObj (modelsRequestOptions (apiKey cr)))])"
  using assms
  by (simp add: getModels_def getModels_try_def io_defs map_throw_model_option)

theorem models_options_witness:
  "getCredentials demo_context [] (js ''openRouterApi'') = Inr \<lparr>apiKey = js ''sk-1''\<rparr>
   \<and> request demo_context ([] @ [CallGetCredentials (js ''openRouterApi'')])
        (JObj (modelsRequestOptions (js ''sk-1'')))
       = Inr (JObj [(js ''data'',
                JArr [JObj [(js ''id'', JStr (js ''m1'')), (js ''description'', JStr (js ''d1''))]])])
   \<and> fst (getModels demo_context []) =
       Inr [\<lparr>opt_name = JStr (js ''m1''), opt_value = JStr (js ''m1''),
             opt_description = JStr (js ''d1'')\<rparr>]"
proof -
  have h1: "getCredentials demo_context [] (js ''openRouterApi'') = Inr \<lparr>apiKey = js ''sk-1''\<rparr>"
    by (simp add: demo_context_def)
  have h2: "request demo_context ([] @ [CallGetCredentials (js ''openRouterApi'')])
        (JObj (modelsRequestOptions (apiKey \<lparr>apiKey = js ''sk-1''\<rparr>)))
       = Inr (JObj [(js ''data'',
                JArr [JObj [(js ''id'', JStr (js ''m1'')), (js ''description'', JStr (js ''d1''))]])])"
    by (simp add: demo_context_def demo_request_def modelsRequestOptions_def obj_get_def)
  have h3: "obj_get [(js ''data'',
                JArr [JObj [(js ''id'', JStr (js ''m1'')), (js ''description'', JStr (js ''d1''))]])]
              (js ''data'')
            = JArr (map JObj [[(js ''id'', JStr (js ''m1'')), (js ''description'', JStr (js ''d1''))]])"
    by (simp add: obj_get_def)
  from models_options[OF h1 h2 h3]
  have "fst (getModels demo_context []) =
       Inr [\<lparr>opt_name = JStr (js ''m1''), opt_value = JStr (js ''m1''),
             opt_description = JStr (js ''d1'')\<rparr>]"
    by (simp add: obj_get_def)
  with h1 h2 show ?thesis by simp
qed

lemma getModels_wraps:
  assumes creds: "getCredentials c tr (js ''openRouterApi'') = Inr cr"
    and fails: "getModels_try c (apiKey cr) (tr @ [CallGetCredentials (js ''openRouterApi'')])
                  = (Inl e, tr')"
  shows "getModels c tr =
     (Inl (NodeOperationError (getNode c)
        (case Error_message e of
           Some m \<Rightarrow> js ''Failed to load models from OpenRouter API: '' @ m
         | None \<Rightarrow> js ''Failed to load models from OpenRouter API: Unknown error'')),
      tr' @ [CallGetNode])"
  using assms
  by (simp add: getModels_def getModels_catch_def io_defs split: option.splits)

lemma getModels_try_malformed:
  assumes resp: "request c tr1 (JObj (modelsRequestOptions key)) = Inr response"
    and data: "get_prop c response (js ''data'') = Inr d"
    and na: "\<not> isArray d"
  shows "getModels_try c key tr1 =
     (Inl (NodeOperationError (getNode c) (js ''Invalid response format from OpenRouter API'')),
      tr1 @ [CallRequest (JObj (modelsRequestOptions key)), CallGetNode])"
  using assms by (simp add: getModels_try_def io_defs)

lemma getModels_try_transport:
  assumes resp: "request c tr1 (JObj (modelsRequestOptions key)) = Inl e"
  shows "getModels_try c key tr1 = (Inl e, tr1 @ [CallRequest (JObj (modelsRequestOptions key))])"
  using assms by (simp add: getModels_try_def io_defs)

text \<open>
  Claim C8. A model-list response body, neither \<open>null\<close> nor \<open>undefined\<close>, whose
  \<open>data\<close> field is missing or is no array: \<open>getModels\<close> fails with a
  \<open>NodeOperationError\<close> of the node whose message is the invalid-format message
  behind the prefix \<open>Failed to load models from OpenRouter API: \<close> (the \<open>catch\<close>
  block wraps the error thrown inside the \<open>try\<close> block), and the log holds the one
  request only. Every failure of the \<open>try\<close> block, a failed request in
  particular, is wrapped in the same way: the prefix is followed by the failure's message
  when the thrown value is an \<open>Error\<close>, and by \<open>Unknown error\<close> otherwise.
\<close>

theorem models_failures:
  assumes creds: "getCredentials c tr (js ''openRouterApi'') = Inr cr"
  shows "(\<forall>response d.
            request c (tr @ [CallGetCredentials (js ''openRouterApi'')])
              (JObj (modelsRequestOptions (apiKey cr))) = Inr response
          \<and> get_prop c response (js ''data'') = Inr d \<and> \<not> isArray d \<longrightarrow>
            getModels c tr =
              (Inl (NodeOperationError (getNode c)
                 (js ''Failed to load models from OpenRouter API: ''
                    @ js ''Invalid response format from OpenRouter API'')),
               tr @ [CallGetCredentials (js ''openRouterApi''),
                     CallRequest (JObj (modelsRequestOptions (apiKey cr))),
                     CallGetNode, CallGetNode]))
     \<and> (\<forall>e tr'.
            getModels_try c (apiKey cr) (tr @ [CallGetCredentials (js ''openRouterApi'')])
              = (Inl e, tr') \<longrightarrow>
            getModels c tr =
              (Inl (NodeOperationError (getNode c)
                 (case Error_message e of
                    Some m \<Rightarrow> js ''Failed to load models from OpenRouter API: '' @ m
                  | None \<Rightarrow> js ''Failed to load models from OpenRouter API: Unknown error'')),
               tr' @ [CallGetNode]))
     \<and> (\<forall>e.
            request c (tr @ [CallGetCredentials (js ''openRouterApi'')])
              (JObj (modelsRequestOptions (apiKey cr))) = Inl e \<longrightarrow>
            getModels c tr =
              (Inl (NodeOperationError (getNode c)
                 (case Error_message e of
                    Some m \<Rightarrow> js ''Failed to load models from OpenRouter API: '' @ m
                  | None \<Rightarrow> js ''Failed to load models from OpenRouter API: Unknown error'')),
               tr @ [CallGetCredentials (js ''openRouterApi''),
                     CallRequest (JObj (modelsRequestOptions (apiKey cr))),
                     CallGetNode]))"
proof (intro conjI allI impI)
  fix response d
  assume a: "request c (tr @ [CallGetCredentials (js ''openRouterApi'')])
              (JObj (modelsRequestOptions (apiKey cr))) = Inr response
          \<and> get_prop c response (js ''data'') = Inr d \<and> \<not> isArray d"
  from getModels_try_malformed[of c _ "apiKey cr" response d] a
  have "getModels_try c (apiKey cr) (tr @ [CallGetCredentials (js ''openRouterApi'')]) =
     (Inl (NodeOperationError (getNode c) (js ''Invalid response format from OpenRouter API'')),
      (tr @ [CallGetCredentials (js ''openRouterApi'')])
        @ [CallRequest (JObj (modelsRequestOptions (apiKey cr))), CallGetNode])"
    by blast
  from getModels_wraps[OF creds this]
  show "getModels c tr =
              (Inl (NodeOperationError (getNode c)
                 (js ''Failed to load models from OpenRouter API: ''
                    @ js ''Invalid response format from OpenRouter API'')),
               tr @ [CallGetCredentials (js ''openRouterApi''),
                     CallRequest (JObj (modelsRequestOptions (apiKey cr))),
                     CallGetNode, CallGetNode])"
    by simp
next
  fix e tr'
  assume "getModels_try c (apiKey cr) (tr @ [CallGetCredentials (js ''openRouterApi'')])
              = (Inl e, tr')"
  from getModels_wraps[OF creds this]
  show "getModels c tr =
              (Inl (NodeOperationError (getNode c)
                 (case Error_message e of
                    Some m \<Rightarrow> js ''Failed to load models from OpenRouter API: '' @ m
                  | None \<Rightarrow> js ''Failed to load models from OpenRouter API: Unknown error'')),
               tr' @ [CallGetNode])" .
next
  fix e
  assume "request c (tr @ [CallGetCredentials (js ''openRouterApi'')])
              (JObj (modelsRequestOptions (apiKey cr))) = Inl e"
  from getModels_wraps[OF creds getModels_try_transport[OF this]]
  show "getModels c tr =
              (Inl (NodeOperationError (getNode c)
                 (case Error_message e of
                    Some m \<Rightarrow> js ''Failed to load models from OpenRouter API: '' @ m
                  | None \<Rightarrow> js ''Failed to load models from OpenRouter API: Unknown error'')),
               tr @ [CallGetCredentials (js ''openRouterApi''),
                     CallRequest (JObj (modelsRequestOptions (apiKey cr))),
                     CallGetNode])"
    by simp
qed


theorem models_failures_witness:
  "fst (getModels (demo_context\<lparr>request := \<lambda>tr ro. Inr (JObj [])\<rparr>) []) =
     Inl (NodeOperationError (getNode demo_context)
            (js ''Failed to load models from OpenRouter API: ''
               @ js ''Invalid response format from OpenRouter API''))
   \<and> filter is_request (snd (getModels (demo_context\<lparr>request := \<lambda>tr ro. Inr (JObj [])\<rparr>) [])) =
       [CallRequest (JObj (modelsRequestOptions (js ''sk-1'')))]
   \<and> fst (getModels (demo_context\<lparr>request := \<lambda>tr ro.
              Inl (JsError (js ''RequestError'') (js ''socket hang up''))\<rparr>) []) =
     Inl (NodeOperationError (getNode demo_context)
            (js ''Failed to load models from OpenRouter API: '' @ js ''socket hang up''))
   \<and> fst (getModels (demo_context\<lparr>request := \<lambda>tr ro. Inl (NonError (JStr (js ''boom'')))\<rparr>) []) =
     Inl (NodeOperationError (getNode demo_context)
            (js ''Failed to load models from OpenRouter API: Unknown error''))"
proof -
  let ?a = "demo_context\<lparr>request := \<lambda>tr ro. Inr (JObj [])\<rparr>"
  let ?b = "demo_context\<lparr>request := \<lambda>tr ro.
              Inl (JsError (js ''RequestError'') (js ''socket hang up''))\<rparr>"
  let ?c = "demo_context\<lparr>request := \<lambda>tr ro. Inl (NonError (JStr (js ''boom'')))\<rparr>"
  have ca: "getCredentials ?a [] (js ''openRouterApi'') = Inr \<lparr>apiKey = js ''sk-1''\<rparr>"
    and cb: "getCredentials ?b [] (js ''openRouterApi'') = Inr \<lparr>apiKey = js ''sk-1''\<rparr>"
    and cc: "getCredentials ?c [] (js ''openRouterApi'') = Inr \<lparr>apiKey = js ''sk-1''\<rparr>"
    by (simp_all add: demo_context_def)
  have ra: "request ?a ([] @ [CallGetCredentials (js ''openRouterApi'')])
              (JObj (modelsRequestOptions (apiKey \<lparr>apiKey = js ''sk-1''\<rparr>))) = Inr (JObj [])
          \<and> get_prop ?a (JObj []) (js ''data'') = Inr JUndefined \<and> \<not> isArray JUndefined"
    by (simp add: obj_get_def)
  have rb: "request ?b ([] @ [CallGetCredentials (js ''openRouterApi'')])
              (JObj (modelsRequestOptions (apiKey \<lparr>apiKey = js ''sk-1''\<rparr>)))
            = Inl (JsError (js ''RequestError'') (js ''socket hang up''))"
    by simp
  have rc: "request ?c ([] @ [CallGetCredentials (js ''openRouterApi'')])
              (JObj (modelsRequestOptions (apiKey \<lparr>apiKey = js ''sk-1''\<rparr>)))
            = Inl (NonError (JStr (js ''boom'')))"
    by simp
  have na: "getNode ?a = getNode demo_context" and nb: "getNode ?b = getNode demo_context"
    and nc: "getNode ?c = getNode demo_context" by simp_all
  from models_failures[OF ca] ra
  have a: "getModels ?a [] =
              (Inl (NodeOperationError (getNode ?a)
                 (js ''Failed to load models from OpenRouter API: ''
                    @ js ''Invalid response format from OpenRouter API'')),
               [] @ [CallGetCredentials (js ''openRouterApi''),
                     CallRequest (JObj (modelsRequestOptions (apiKey \<lparr>apiKey = js ''sk-1''\<rparr>))),
                     CallGetNode, CallGetNode])"
    by blast
  from models_failures[OF cb] rb
  have b: "getModels ?b [] =
              (Inl (NodeOperationError (getNode ?b)
                 (case Error_message (JsError (js ''RequestError'') (js ''socket hang up'')) of
                    Some m \<Rightarrow> js ''Failed to load models from OpenRouter API: '' @ m
                  | None \<Rightarrow> js ''Failed to load models from OpenRouter API: Unknown error'')),
               [] @ [CallGetCredentials (js ''openRouterApi''),
                     CallRequest (JObj (modelsRequestOptions (apiKey \<lparr>apiKey = js ''sk-1''\<rparr>))),
                     CallGetNode])"
    by blast
  from models_failures[OF cc] rc
  have c: "getModels ?c [] =
              (Inl (NodeOperationError (getNode ?c)
                 (case Error_message (NonError (JStr (js ''boom''))) of
                    Some m \<Rightarrow> js ''Failed to load models from OpenRouter API: '' @ m
                  | None \<Rightarrow> js ''Failed to load models from OpenRouter API: Unknown error'')),
               [] @ [CallGetCredentials (js ''openRouterApi''),
                     CallRequest (JObj (modelsRequestOptions (apiKey \<lparr>apiKey = js ''sk-1''\<rparr>))),
                     CallGetNode])"
    by blast
  show ?thesis unfolding a b c na nb nc by simp
qed

section \<open>Reading the credentials\<close>

lemma authorization_options:
  "authorization (JObj (requestOptions key q)) = JStr (js ''Bearer '' @ key)"
  "authorization (JObj (streamOptions key q)) = JStr (js ''Bearer '' @ key)"
  by (simp_all add: requestOptions_def streamOptions_def obj_get_def)

lemma uses_key_no_read: "uses_key key ev \<Longrightarrow> \<not> is_credentials_read ev"
  by (cases ev) simp_all

lemma execute_log:
  "\<exists>evs. snd (execute c tr) =
            tr @ [CallGetInputData, CallGetCredentials (js ''openRouterApi'')] @ evs
     \<and> list_all (\<lambda>ev. \<not> is_credentials_read ev) evs
     \<and> (\<forall>cr. getCredentials c (tr @ [CallGetInputData]) (js ''openRouterApi'') = Inr cr \<longrightarrow>
           list_all (uses_key (apiKey cr)) evs)"
proof (cases "getCredentials c (tr @ [CallGetInputData]) (js ''openRouterApi'')")
  case (Inl e)
  hence "snd (execute c tr) = tr @ [CallGetInputData, CallGetCredentials (js ''openRouterApi'')] @ []"
    by (simp add: execute_def io_defs)
  thus ?thesis using Inl by (intro exI[of _ "[]"]) simp
next
  case (Inr cr)
  let ?tr1 = "tr @ [CallGetInputData, CallGetCredentials (js ''openRouterApi'')]"
  let ?n = "length (getInputData c)"
  obtain r tr' where it: "iterations c (apiKey cr) ?n ?tr1 = (r, tr')"
    by (cases "iterations c (apiKey cr) ?n ?tr1")
  have s: "snd (execute c tr) = tr'"
    using execute_iterations[OF Inr] it by (cases r) simp_all
  have "adds (uses_key (apiKey cr)) (iterations c (apiKey cr) ?n)"
    by (rule adds_iterations) (simp_all add: authorization_options del: authorization.simps)
  from addsD[OF this it] obtain evs where
    evs: "tr' = ?tr1 @ evs" "list_all (uses_key (apiKey cr)) evs" by blast
  have "list_all (\<lambda>ev. \<not> is_credentials_read ev) evs"
    using evs(2) by (auto simp: list_all_iff dest: uses_key_no_read)
  with s evs Inr show ?thesis by (intro exI[of _ evs]) simp
qed

text \<open>
  Claim C9, as the code has it. \<open>execute\<close> reads the stored credentials once for the
  whole batch, right after the input items and before the first item is processed. The
  processing of the items never reads them: every request of the batch carries the API
  key of that one read.
\<close>

theorem credentials_read_once:
  "\<exists>evs. snd (execute c tr) =
            tr @ [CallGetInputData, CallGetCredentials (js ''openRouterApi'')] @ evs
     \<and> list_all (\<lambda>ev. \<not> is_credentials_read ev) evs
     \<and> (\<forall>cr. getCredentials c (tr @ [CallGetInputData]) (js ''openRouterApi'') = Inr cr \<longrightarrow>
           list_all (uses_key (apiKey cr)) evs)"
  by (rule execute_log)

theorem credentials_read_once_witness:
  "getCredentials demo_context ([] @ [CallGetInputData]) (js ''openRouterApi'')
     = Inr \<lparr>apiKey = js ''sk-1''\<rparr>
   \<and> (\<exists>evs. snd (execute demo_context []) =
            [CallGetInputData, CallGetCredentials (js ''openRouterApi'')] @ evs
        \<and> list_all (\<lambda>ev. \<not> is_credentials_read ev) evs
        \<and> list_all (uses_key (js ''sk-1'')) evs)"
proof -
  have creds: "getCredentials demo_context ([] @ [CallGetInputData]) (js ''openRouterApi'')
     = Inr \<lparr>apiKey = js ''sk-1''\<rparr>"
    by (simp add: demo_context_def)
  from credentials_read_once[of demo_context "[]"] obtain evs where
    e: "snd (execute demo_context []) =
            [] @ [CallGetInputData, CallGetCredentials (js ''openRouterApi'')] @ evs"
    "list_all (\<lambda>ev. \<not> is_credentials_read ev) evs"
    "\<forall>cr. getCredentials demo_context ([] @ [CallGetInputData]) (js ''openRouterApi'') = Inr cr \<longrightarrow>
           list_all (uses_key (apiKey cr)) evs"
    by blast
  from e(3) creds have "list_all (uses_key (apiKey \<lparr>apiKey = js ''sk-1''\<rparr>)) evs" by blast
  hence "list_all (uses_key (js ''sk-1'')) evs" by simp
  with e(1,2) have "\<exists>evs. snd (execute demo_context []) =
            [CallGetInputData, CallGetCredentials (js ''openRouterApi'')] @ evs
        \<and> list_all (\<lambda>ev. \<not> is_credentials_read ev) evs
        \<and> list_all (uses_key (js ''sk-1'')) evs"
    by (intro exI[of _ evs]) simp
  with creds show ?thesis by (intro conjI)
qed

text \<open>
  A read of the credentials for each item does not happen: the example batch has three
  items and its log holds a single read.
\<close>

theorem credentials_per_item_counterexample:
  "length (filter is_credentials_read (snd (execute demo_context []))) = 1
   \<and> length (getInputData demo_context) = 3"
proof -
  from execute_log[of demo_context "[]"] obtain evs where
    e: "snd (execute demo_context []) =
            [] @ [CallGetInputData, CallGetCredentials (js ''openRouterApi'')] @ evs"
    "list_all (\<lambda>ev. \<not> is_credentials_read ev) evs"
    by blast
  from e(2) have "filter is_credentials_read evs = []"
    by (simp add: list_all_iff filter_empty_conv)
  hence "length (filter is_credentials_read (snd (execute demo_context []))) = 1"
    unfolding e(1) by simp
  moreover have "length (getInputData demo_context) = 3" by (simp add: demo_context_def)
  ultimately show ?thesis by (intro conjI)
qed

end
